theory Spec2Isabelle
  imports Complex_Main "HOL-Library.Word"
begin

section \<open>The SnitchDNS API client: data model\<close>

text \<open>
  The development embeds \<^verbatim>\<open>internal/client/client.go\<close>. Byte slices and Go strings are
  \<open>string\<close>. Go's \<^verbatim>\<open>int\<close> is taken at its 64-bit width (amd64, arm64): the retry budget
  \<^verbatim>\<open>MaxRetries\<close> and the loop counter \<^verbatim>\<open>attempt\<close> are \<open>64 word\<close>, compared as signed
  values, so that \<^verbatim>\<open>attempt++\<close> wraps as it does in Go. HTTP status codes are only
  compared with constants and are kept as \<open>int\<close>.
\<close>

type_synonym bytes = string

type_synonym go_int = "64 word"

text \<open>The non-nil values \<^verbatim>\<open>ctx.Err()\<close> returns for the standard contexts.\<close>

datatype ctx_error = Canceled | DeadlineExceeded

text \<open>
  Every error value the client builds, one constructor per \<^verbatim>\<open>fmt.Errorf\<close> format; the
  wrapped cause of a library error is kept as its message.
\<close>

datatype error =
    MarshalFailed string
  | ContextError ctx_error
  | CreateRequestFailed string
  | ExecuteFailed string
  | ReadBodyFailed string
  | StatusFailed int bytes
  | RetriesFailed go_int "error option"
  | ParseResponseFailed string
  | ParseDataFailed string
  | ParseConditionalDataFailed string

text \<open>Of \<^verbatim>\<open>http.Client\<close> only the configured timeout is data; what it does is the world below.\<close>

record HTTPClient =
  Timeout :: go_int

record Client =
  BaseURL :: string
  APIKey :: string
  HTTPClient :: HTTPClient
  UserAgent :: string
  MaxRetries :: go_int
  RetryWaitMin :: go_int
  RetryWaitMax :: go_int
  DebugLogging :: bool

definition NewClient :: "string \<Rightarrow> string \<Rightarrow> Client" where
  "NewClient baseURL apiKey =
     \<lparr> BaseURL = baseURL,
       APIKey = apiKey,
       HTTPClient = \<lparr> Timeout = 30 * 1000000000 \<rparr>,
       UserAgent = ''terraform-provider-snitchdns/dev'',
       MaxRetries = 3,
       RetryWaitMin = 1 * 1000000000,
       RetryWaitMax = 30 * 1000000000,
       DebugLogging = False \<rparr>"

subsection \<open>The environment of one call\<close>

text \<open>
  What the transport does with one \<^verbatim>\<open>executeRequest\<close> call:
  \<^item> \<open>NewRequestError cause\<close>: \<^verbatim>\<open>http.NewRequestWithContext\<close> fails;
  \<^item> \<open>DoError cause\<close>: \<^verbatim>\<open>c.HTTPClient.Do\<close> fails;
  \<^item> \<open>ReadError status partial cause\<close>: the headers arrived with \<open>status\<close>, then
    \<^verbatim>\<open>io.ReadAll\<close> failed after \<open>partial\<close>;
  \<^item> \<open>Response status body\<close>: the response arrived whole.
\<close>

datatype transport =
    NewRequestError string
  | DoError string
  | ReadError int bytes string
  | Response int bytes

text \<open>
  The world as seen by one logical call, indexed by the number of loop iterations that
  came before (the counter \<open>n\<close> of \<open>retry_loop\<close>):
  \<^item> \<open>wait_done w n\<close>: which case of the \<^verbatim>\<open>select\<close> runs at the backoff of iteration
    \<open>n\<close>: \<open>None\<close> when the timer fires first, \<open>Some e\<close> when \<^verbatim>\<open>ctx.Done()\<close> does,
    \<open>e\<close> being \<^verbatim>\<open>ctx.Err()\<close>;
  \<^item> \<open>transport_at w n\<close>: the outcome of the transport at iteration \<open>n\<close>;
  \<^item> \<open>ctx_err w n\<close>: what \<^verbatim>\<open>ctx.Err()\<close> returns when it is read after a failed
    \<^verbatim>\<open>executeRequest\<close> at iteration \<open>n\<close> (\<open>None\<close> is nil).
\<close>

record world =
  wait_done :: "nat \<Rightarrow> ctx_error option"
  transport_at :: "nat \<Rightarrow> transport"
  ctx_err :: "nat \<Rightarrow> ctx_error option"

text \<open>
  What a call does that can be observed: \<^verbatim>\<open>json.Marshal\<close> on the body, the backoff
  \<^verbatim>\<open>select\<close> entered with the attempt index given to \<^verbatim>\<open>calculateBackoff\<close>, and each call
  of \<^verbatim>\<open>executeRequest\<close> with its method, path and serialized body. The duration that
  \<^verbatim>\<open>calculateBackoff\<close> computes (modelled on its own below) only sets the time at which
  the timer of the \<^verbatim>\<open>select\<close> fires; which case of the \<^verbatim>\<open>select\<close> runs is read from the
  world. The
  headers that \<^verbatim>\<open>executeRequest\<close> sets do not influence what the client does next and are
  left out.
\<close>

datatype event =
    Marshal
  | Backoff go_int
  | Execute string string "bytes option"

section \<open>The request executor\<close>

text \<open>
  \<^verbatim>\<open>executeRequest\<close> returns the triple \<^verbatim>\<open>(respBody, statusCode, err)\<close>; a nil slice is
  the empty string, a nil error is \<open>None\<close>.
\<close>

fun executeRequest :: "transport \<Rightarrow> bytes \<times> int \<times> error option" where
  "executeRequest (NewRequestError cause) = ([], 0, Some (CreateRequestFailed cause))"
| "executeRequest (DoError cause) = ([], 0, Some (ExecuteFailed cause))"
| "executeRequest (ReadError status partial cause) = (partial, status, Some (ReadBodyFailed cause))"
| "executeRequest (Response status body) = (body, status, None)"

section \<open>The retry orchestrator\<close>

text \<open>
  The \<^verbatim>\<open>for\<close> loop of \<^verbatim>\<open>doRequestWithContext\<close>. One unit of fuel pays for one test of
  the loop condition; the result \<open>None\<close> says that the loop was still running when the
  fuel ran out. The events of the call so far are threaded through.
\<close>

fun retry_loop ::
  "nat \<Rightarrow> Client \<Rightarrow> world \<Rightarrow> string \<Rightarrow> string \<Rightarrow> bytes option \<Rightarrow> go_int \<Rightarrow> nat \<Rightarrow>
   error option \<Rightarrow> event list \<Rightarrow> (error + bytes) option \<times> event list" where
  "retry_loop 0 c w method path jsonData attempt n lastErr tr = (None, tr)"
| "retry_loop (Suc fuel) c w method path jsonData attempt n lastErr tr =
     (if attempt <=s MaxRetries c then
        (case (if 0 <s attempt then wait_done w n else None) of
           Some e \<Rightarrow> (Some (Inl (ContextError e)), tr @ [Backoff attempt])
         | None \<Rightarrow>
             (let tr1 = (if 0 <s attempt then tr @ [Backoff attempt] else tr);
                  tr2 = tr1 @ [Execute method path jsonData]
              in case executeRequest (transport_at w n) of
                   (respBody, statusCode, Some err) \<Rightarrow>
                     (case ctx_err w n of
                        Some e \<Rightarrow> (Some (Inl (ContextError e)), tr2)
                      | None \<Rightarrow>
                          retry_loop fuel c w method path jsonData (attempt + 1) (Suc n)
                            (Some err) tr2)
                 | (respBody, statusCode, None) \<Rightarrow>
                     if 200 \<le> statusCode \<and> statusCode < 300 then (Some (Inr respBody), tr2)
                     else if 400 \<le> statusCode \<and> statusCode < 500
                     then (Some (Inl (StatusFailed statusCode respBody)), tr2)
                     else retry_loop fuel c w method path jsonData (attempt + 1) (Suc n)
                            (Some (StatusFailed statusCode respBody)) tr2))
      else (Some (Inl (RetriesFailed (MaxRetries c) lastErr)), tr))"

text \<open>
  \<^verbatim>\<open>doRequestWithContext\<close>: the body is serialized before the loop, by the function
  \<open>marshal\<close> standing for \<^verbatim>\<open>json.Marshal\<close> (\<open>Inl\<close> its error); a nil body is \<open>None\<close>
  and leaves \<^verbatim>\<open>jsonData\<close> nil.
\<close>

definition doRequestWithContext ::
  "nat \<Rightarrow> Client \<Rightarrow> ('b \<Rightarrow> string + bytes) \<Rightarrow> world \<Rightarrow> string \<Rightarrow> string \<Rightarrow> 'b option \<Rightarrow>
   (error + bytes) option \<times> event list" where
  "doRequestWithContext fuel c marshal w method path body =
     (case body of
        None \<Rightarrow> retry_loop fuel c w method path None 0 0 None []
      | Some b \<Rightarrow>
          (case marshal b of
             Inl cause \<Rightarrow> (Some (Inl (MarshalFailed cause)), [Marshal])
           | Inr jsonData \<Rightarrow>
               retry_loop fuel c w method path (Some jsonData) 0 0 None [Marshal]))"

text \<open>
  \<^verbatim>\<open>doRequest\<close> passes \<^verbatim>\<open>context.Background()\<close>, which is never done: its \<^verbatim>\<open>Done\<close> channel
  never fires and its \<^verbatim>\<open>Err\<close> is always nil.
\<close>

definition background :: "world \<Rightarrow> world" where
  "background w = w\<lparr> wait_done := (\<lambda>n. None), ctx_err := (\<lambda>n. None) \<rparr>"

definition doRequest ::
  "nat \<Rightarrow> Client \<Rightarrow> ('b \<Rightarrow> string + bytes) \<Rightarrow> world \<Rightarrow> string \<Rightarrow> string \<Rightarrow> 'b option \<Rightarrow>
   (error + bytes) option \<times> event list" where
  "doRequest fuel c marshal w method path body =
     doRequestWithContext fuel c marshal (background w) method path body"

section \<open>Records\<close>

definition emptyJSON :: string where
  "emptyJSON = ''{}''"

text \<open>
  The fields of \<^verbatim>\<open>Record\<close> that \<^verbatim>\<open>json.Unmarshal\<close> fills from the response come first;
  \<^verbatim>\<open>Data\<close> and \<^verbatim>\<open>ConditionalData\<close> carry the tag \<^verbatim>\<open>json:"-"\<close>, are never touched by the
  outer decode, and extend them. A Go map is a partial function, a nil map is \<open>None\<close>;
  the values of type \<^verbatim>\<open>interface{}\<close> are left open as \<open>'v\<close>.
\<close>

record RecordFields =
  ID :: int
  ZoneID :: int
  Active :: bool
  Class :: string
  Type :: string
  TTL :: int
  DataRaw :: string
  IsConditional :: bool
  ConditionalCount :: int
  ConditionalLimit :: int
  ConditionalReset :: bool
  ConditionalDataRaw :: string

record 'v Record = RecordFields +
  Data :: "(string \<rightharpoonup> 'v) option"
  ConditionalData :: "(string \<rightharpoonup> 'v) option"

text \<open>
  The code that follows the request, the same text in \<^verbatim>\<open>CreateRecord\<close>, \<^verbatim>\<open>GetRecord\<close>
  and \<^verbatim>\<open>UpdateRecord\<close>. \<open>unmarshal_record\<close> stands for \<^verbatim>\<open>json.Unmarshal\<close> into a
  \<^verbatim>\<open>Record\<close>, \<open>unmarshal_object\<close> for \<^verbatim>\<open>json.Unmarshal\<close> of a string into a nil
  \<^verbatim>\<open>map[string]interface{}\<close>: \<open>Inl\<close> is its error, \<open>Inr\<close> the map it leaves behind.
\<close>

definition decode_record ::
  "(bytes \<Rightarrow> string + RecordFields) \<Rightarrow> (string \<Rightarrow> string + (string \<rightharpoonup> 'v) option) \<Rightarrow>
   bytes \<Rightarrow> error + 'v Record" where
  "decode_record unmarshal_record unmarshal_object respBody =
     (case unmarshal_record respBody of
        Inl cause \<Rightarrow> Inl (ParseResponseFailed cause)
      | Inr decoded \<Rightarrow>
          (let record = RecordFields.extend decoded (Record.fields None None)
           in case (if DataRaw record \<noteq> [] then unmarshal_object (DataRaw record)
                    else Inr (Data record)) of
                Inl cause \<Rightarrow> Inl (ParseDataFailed cause)
              | Inr d \<Rightarrow>
                  (let record = record\<lparr> Data := d \<rparr>
                   in case (if ConditionalDataRaw record \<noteq> [] \<and>
                               ConditionalDataRaw record \<noteq> emptyJSON
                            then unmarshal_object (ConditionalDataRaw record)
                            else Inr (ConditionalData record)) of
                        Inl cause \<Rightarrow> Inl (ParseConditionalDataFailed cause)
                      | Inr cd \<Rightarrow> Inr (record\<lparr> ConditionalData := cd \<rparr>))))"

definition CreateRecord ::
  "nat \<Rightarrow> Client \<Rightarrow> ('b \<Rightarrow> string + bytes) \<Rightarrow> (bytes \<Rightarrow> string + RecordFields) \<Rightarrow>
   (string \<Rightarrow> string + (string \<rightharpoonup> 'v) option) \<Rightarrow> world \<Rightarrow> string \<Rightarrow> 'b \<Rightarrow>
   (error + 'v Record) option" where
  "CreateRecord fuel c marshal unmarshal_record unmarshal_object w zoneID req =
     (case fst (doRequest fuel c marshal w ''POST'' (''/zones/'' @ zoneID @ ''/records'')
                  (Some req)) of
        None \<Rightarrow> None
      | Some (Inl err) \<Rightarrow> Some (Inl err)
      | Some (Inr respBody) \<Rightarrow>
          Some (decode_record unmarshal_record unmarshal_object respBody))"

definition GetRecord ::
  "nat \<Rightarrow> Client \<Rightarrow> (bytes \<Rightarrow> string + RecordFields) \<Rightarrow>
   (string \<Rightarrow> string + (string \<rightharpoonup> 'v) option) \<Rightarrow> world \<Rightarrow> string \<Rightarrow> string \<Rightarrow>
   (error + 'v Record) option" where
  "GetRecord fuel c unmarshal_record unmarshal_object w zoneID recordID =
     (case fst (doRequest fuel c (\<lambda>b :: unit. Inr []) w ''GET''
                  (''/zones/'' @ zoneID @ ''/records/'' @ recordID) None) of
        None \<Rightarrow> None
      | Some (Inl err) \<Rightarrow> Some (Inl err)
      | Some (Inr respBody) \<Rightarrow>
          Some (decode_record unmarshal_record unmarshal_object respBody))"

definition UpdateRecord ::
  "nat \<Rightarrow> Client \<Rightarrow> ('b \<Rightarrow> string + bytes) \<Rightarrow> (bytes \<Rightarrow> string + RecordFields) \<Rightarrow>
   (string \<Rightarrow> string + (string \<rightharpoonup> 'v) option) \<Rightarrow> world \<Rightarrow> string \<Rightarrow> string \<Rightarrow> 'b \<Rightarrow>
   (error + 'v Record) option" where
  "UpdateRecord fuel c marshal unmarshal_record unmarshal_object w zoneID recordID req =
     (case fst (doRequest fuel c marshal w ''POST''
                  (''/zones/'' @ zoneID @ ''/records/'' @ recordID) (Some req)) of
        None \<Rightarrow> None
      | Some (Inl err) \<Rightarrow> Some (Inl err)
      | Some (Inr respBody) \<Rightarrow>
          Some (decode_record unmarshal_record unmarshal_object respBody))"

section \<open>The backoff computation\<close>

text \<open>
  \<^verbatim>\<open>calculateBackoff\<close> computes in \<^verbatim>\<open>float64\<close>. A \<^verbatim>\<open>float64\<close> value is a finite number,
  an infinity (\<open>Infinity True\<close> the positive one) or NaN. The sign of a zero plays no part
  in this computation and is left out.
\<close>

datatype f64 = Finite real | Infinity bool | NaN

text \<open>
  The finite binary64 numbers are the \<open>m * 2^e\<close> with \<open>\<bar>m\<bar> < 2^53\<close> and
  \<open>-1074 \<le> e \<le> 971\<close>. The grid allows \<open>\<bar>m\<bar> = 2^53\<close> too, which adds exactly the two
  values \<open>2^1024\<close> and \<open>-2^1024\<close>, the first steps past the largest finite number: rounding
  to one of them is an overflow.
\<close>

definition grid :: "real set" where
  "grid = (\<lambda>(m, e). of_int m * 2 powi e) ` ({- (2 ^ 53) .. 2 ^ 53} \<times> {- 1074 .. 971})"

text \<open>
  Rounding to nearest, ties to even, as every \<^verbatim>\<open>float64\<close> operation of Go rounds: of the two
  neighbours of \<open>x\<close> on the grid the nearer one, and on a tie the one that is an even
  multiple of their distance.
\<close>

definition round64 :: "real \<Rightarrow> f64" where
  "round64 x =
     (if 2 ^ 1024 \<le> \<bar>x\<bar> then Infinity (0 < x)
      else
        (let lo = Max {y \<in> grid. y \<le> x};
             hi = Min {y \<in> grid. x \<le> y};
             y = (if x - lo < hi - x then lo
                  else if hi - x < x - lo then hi
                  else if even \<lfloor>lo / (hi - lo)\<rfloor> then lo else hi)
         in if \<bar>y\<bar> = 2 ^ 1024 then Infinity (0 < y) else Finite y))"

text \<open>
  The operations that \<^verbatim>\<open>calculateBackoff\<close> uses, with their results on infinities and NaN:
  negation, \<^verbatim>\<open>+\<close>, \<^verbatim>\<open>-\<close>, \<^verbatim>\<open>*\<close> and \<^verbatim>\<open>>\<close>.
\<close>

fun f64_neg :: "f64 \<Rightarrow> f64" where
  "f64_neg (Finite x) = Finite (- x)"
| "f64_neg (Infinity s) = Infinity (\<not> s)"
| "f64_neg NaN = NaN"

fun f64_add :: "f64 \<Rightarrow> f64 \<Rightarrow> f64" where
  "f64_add (Finite x) (Finite y) = round64 (x + y)"
| "f64_add (Finite x) (Infinity s) = Infinity s"
| "f64_add (Infinity s) (Finite y) = Infinity s"
| "f64_add (Infinity s) (Infinity t) = (if s = t then Infinity s else NaN)"
| "f64_add a b = NaN"

definition f64_sub :: "f64 \<Rightarrow> f64 \<Rightarrow> f64" where
  "f64_sub a b = f64_add a (f64_neg b)"

fun f64_mul :: "f64 \<Rightarrow> f64 \<Rightarrow> f64" where
  "f64_mul (Finite x) (Finite y) = round64 (x * y)"
| "f64_mul (Finite x) (Infinity s) = (if x = 0 then NaN else Infinity ((0 < x) = s))"
| "f64_mul (Infinity s) (Finite y) = (if y = 0 then NaN else Infinity (s = (0 < y)))"
| "f64_mul (Infinity s) (Infinity t) = Infinity (s = t)"
| "f64_mul a b = NaN"

fun f64_gt :: "f64 \<Rightarrow> f64 \<Rightarrow> bool" where
  "f64_gt (Finite x) (Finite y) = (y < x)"
| "f64_gt (Finite x) (Infinity s) = (\<not> s)"
| "f64_gt (Infinity s) (Finite y) = s"
| "f64_gt (Infinity s) (Infinity t) = (s \<and> \<not> t)"
| "f64_gt a b = False"

text \<open>
  The conversion \<^verbatim>\<open>float64(n)\<close> of an integer, and \<^verbatim>\<open>math.Pow(2, float64(n))\<close>: the power of
  two itself where it is a \<^verbatim>\<open>float64\<close>, \<^verbatim>\<open>+Inf\<close> above, zero below. (An exponent beyond
  \<open>2^53\<close> is rounded by \<^verbatim>\<open>float64(n)\<close> first; the power has overflowed, or vanished, long
  before.)
\<close>

definition of_int64 :: "int \<Rightarrow> f64" where
  "of_int64 n = round64 (of_int n)"

definition pow2 :: "int \<Rightarrow> f64" where
  "pow2 n = round64 (2 powi n)"

text \<open>
  The conversion \<^verbatim>\<open>time.Duration(backoff)\<close> to \<^verbatim>\<open>int64\<close> discards the fraction. For a value
  that \<^verbatim>\<open>int64\<close> cannot hold (NaN and the infinities among them) Go leaves the result to the
  implementation: \<open>None\<close>.
\<close>

fun to_duration :: "f64 \<Rightarrow> int option" where
  "to_duration (Finite x) =
     (let t = (if 0 \<le> x then \<lfloor>x\<rfloor> else \<lceil>x\<rceil>)
      in if - (2 ^ 63) \<le> t \<and> t < 2 ^ 63 then Some t else None)"
| "to_duration a = None"

text \<open>
  \<^verbatim>\<open>calculateBackoff\<close>, in nanoseconds. The fraction that \<^verbatim>\<open>secureRandomFloat\<close> draws is the
  parameter \<open>randomFactor\<close>.
\<close>

definition calculateBackoff :: "Client \<Rightarrow> go_int \<Rightarrow> f64 \<Rightarrow> int option" where
  "calculateBackoff c attempt randomFactor =
     (let backoff = f64_mul (of_int64 (sint (RetryWaitMin c))) (pow2 (sint (attempt - 1)));
          backoff = (if f64_gt backoff (of_int64 (sint (RetryWaitMax c)))
                     then of_int64 (sint (RetryWaitMax c)) else backoff);
          jitter = f64_mul backoff (Finite 0.25);
          backoff = f64_add (f64_sub backoff jitter)
                      (f64_mul (f64_mul randomFactor jitter) (Finite 2))
      in to_duration backoff)"

section \<open>Vocabulary of the properties\<close>

text \<open>Counting what a call did: calls of \<^verbatim>\<open>executeRequest\<close>, backoff waits, serializations.\<close>

fun attempts :: "event list \<Rightarrow> nat" where
  "attempts [] = 0"
| "attempts (Execute method path jsonData # tr) = Suc (attempts tr)"
| "attempts (ev # tr) = attempts tr"

fun waits :: "event list \<Rightarrow> nat" where
  "waits [] = 0"
| "waits (Backoff attempt # tr) = Suc (waits tr)"
| "waits (ev # tr) = waits tr"

fun marshals :: "event list \<Rightarrow> nat" where
  "marshals [] = 0"
| "marshals (Marshal # tr) = Suc (marshals tr)"
| "marshals (ev # tr) = marshals tr"

text \<open>The serialized bodies handed to \<^verbatim>\<open>executeRequest\<close>, in order.\<close>

fun bodies_sent :: "event list \<Rightarrow> bytes option list" where
  "bodies_sent [] = []"
| "bodies_sent (Execute method path jsonData # tr) = jsonData # bodies_sent tr"
| "bodies_sent (ev # tr) = bodies_sent tr"

text \<open>
  The events of the first \<open>k\<close> iterations of a call, when each of them reached
  \<^verbatim>\<open>executeRequest\<close>: a backoff before every attempt but the first.
\<close>

primrec iterations :: "string \<Rightarrow> string \<Rightarrow> bytes option \<Rightarrow> nat \<Rightarrow> event list" where
  "iterations method path jsonData 0 = []"
| "iterations method path jsonData (Suc k) =
     iterations method path jsonData k
       @ (if k = 0 then [] else [Backoff (of_nat k)])
       @ [Execute method path jsonData]"

text \<open>
  \<open>serializes marshal body jsonData\<close>: the body is nil and \<^verbatim>\<open>jsonData\<close> stays nil, or
  \<^verbatim>\<open>json.Marshal\<close> accepts the body and returns \<open>jsonData\<close>.
\<close>

definition serializes :: "('b \<Rightarrow> string + bytes) \<Rightarrow> 'b option \<Rightarrow> bytes option \<Rightarrow> bool" where
  "serializes marshal body jsonData = (map_option marshal body = map_option Inr jsonData)"

text \<open>The backoff before attempt \<open>j\<close> (there is none before the first) runs to its end.\<close>

definition timer_fires :: "world \<Rightarrow> nat \<Rightarrow> bool" where
  "timer_fires w j = (j = 0 \<or> wait_done w j = None)"

text \<open>No response came back whole: the transport-level failures.\<close>

fun transport_failed :: "transport \<Rightarrow> bool" where
  "transport_failed (Response status body) = False"
| "transport_failed tp = True"

text \<open>
  A transient failure in the words of the specification: a status of the 5xx class, or a
  transport error while the context is not done.
\<close>

definition transient_failure :: "world \<Rightarrow> nat \<Rightarrow> bool" where
  "transient_failure w j =
     (case transport_at w j of
        Response status body \<Rightarrow> 500 \<le> status \<and> status < 600
      | tp \<Rightarrow> ctx_err w j = None)"

text \<open>
  What the loop does retry: a transport error while the context is not done, or any status
  outside [200,300) and [400,500).
\<close>

definition retried :: "world \<Rightarrow> nat \<Rightarrow> bool" where
  "retried w j =
     (case transport_at w j of
        Response status body \<Rightarrow>
          \<not> (200 \<le> status \<and> status < 300) \<and> \<not> (400 \<le> status \<and> status < 500)
      | tp \<Rightarrow> ctx_err w j = None)"

text \<open>The error the loop stores in \<^verbatim>\<open>lastErr\<close> when attempt \<open>j\<close> is retried.\<close>

definition recorded_failure :: "world \<Rightarrow> nat \<Rightarrow> error" where
  "recorded_failure w j =
     (case executeRequest (transport_at w j) of
        (respBody, statusCode, Some err) \<Rightarrow> err
      | (respBody, statusCode, None) \<Rightarrow> StatusFailed statusCode respBody)"

text \<open>
  The base of the specification, in exact arithmetic:
  \<open>min (RetryWaitMin * 2^(i - 1)) RetryWaitMax\<close>.
\<close>

definition backoff_base :: "Client \<Rightarrow> go_int \<Rightarrow> real" where
  "backoff_base c attempt =
     min (of_int (sint (RetryWaitMin c)) * 2 powi (sint attempt - 1))
         (of_int (sint (RetryWaitMax c)))"

section \<open>Scenarios\<close>

text \<open>
  Concrete servers, after the tests of the client: one that always answers 503,
  one that answers 503 twice and then 200, one that always answers 404, one that answers
  302 and then 200, one that answers 302 and then 410, one whose first response breaks off
  while the body is read, and one that returns a record. In all of them the context is
  never done.
\<close>

definition unavailable :: world where
  "unavailable = \<lparr> wait_done = (\<lambda>n. None), transport_at = (\<lambda>n. Response 503 []),
                     ctx_err = (\<lambda>n. None) \<rparr>"

definition flaky :: world where
  "flaky = \<lparr> wait_done = (\<lambda>n. None),
              transport_at = (\<lambda>n. if n < 2 then Response 503 [] else Response 200 ''{}''),
              ctx_err = (\<lambda>n. None) \<rparr>"

definition not_found :: world where
  "not_found = \<lparr> wait_done = (\<lambda>n. None), transport_at = (\<lambda>n. Response 404 ''not found''),
                  ctx_err = (\<lambda>n. None) \<rparr>"

definition redirecting :: world where
  "redirecting = \<lparr> wait_done = (\<lambda>n. None),
                    transport_at = (\<lambda>n. if n = 0 then Response 302 ''moved'' else Response 200 ''{}''),
                    ctx_err = (\<lambda>n. None) \<rparr>"

definition moved_then_gone :: world where
  "moved_then_gone = \<lparr> wait_done = (\<lambda>n. None),
                        transport_at = (\<lambda>n. if n = 0 then Response 302 ''moved''
                                             else Response 410 ''gone''),
                        ctx_err = (\<lambda>n. None) \<rparr>"

definition truncated :: world where
  "truncated = \<lparr> wait_done = (\<lambda>n. None),
                  transport_at = (\<lambda>n. if n = 0 then ReadError 200 ''{'' ''unexpected EOF''
                                       else Response 200 ''{}''),
                  ctx_err = (\<lambda>n. None) \<rparr>"

definition serving :: world where
  "serving = \<lparr> wait_done = (\<lambda>n. None), transport_at = (\<lambda>n. Response 200 ''record 7''),
                ctx_err = (\<lambda>n. None) \<rparr>"

text \<open>
  A context canceled during the first backoff, under a server that always answers 503; and
  a deadline that has passed when the transport gives up (\<^verbatim>\<open>TestContextTimeout\<close>).
\<close>

definition canceled_in_backoff :: world where
  "canceled_in_backoff =
     \<lparr> wait_done = (\<lambda>n. if n = 1 then Some Canceled else None),
       transport_at = (\<lambda>n. Response 503 []),
       ctx_err = (\<lambda>n. None) \<rparr>"

definition deadline_passed :: world where
  "deadline_passed =
     \<lparr> wait_done = (\<lambda>n. None),
       transport_at = (\<lambda>n. DoError ''context deadline exceeded''),
       ctx_err = (\<lambda>n. Some DeadlineExceeded) \<rparr>"

text \<open>
  Clients: one whose retry budget is the largest \<^verbatim>\<open>int\<close>, one whose budget is negative.
\<close>

definition unlimited_client :: Client where
  "unlimited_client = (NewClient ''http://dns'' ''key'')\<lparr> MaxRetries := 9223372036854775807 \<rparr>"

definition no_retries_client :: Client where
  "no_retries_client = (NewClient ''http://dns'' ''key'')\<lparr> MaxRetries := - 1 \<rparr>"

text \<open>
  A body type with two values for \<^verbatim>\<open>json.Marshal\<close>: \<open>True\<close> serializes to \<^verbatim>\<open>{}\<close>,
  \<open>False\<close> is rejected.
\<close>

definition marshal_sample :: "bool \<Rightarrow> string + bytes" where
  "marshal_sample b = (if b then Inr ''{}'' else Inl ''json: unsupported value'')"

text \<open>
  A record as the server returns it for a record that is not conditional, both nested
  fields being the string \<^verbatim>\<open>{}\<close>; decoders that know this response, and that decode the
  string \<^verbatim>\<open>{}\<close> into a nil map as \<^verbatim>\<open>encoding/json\<close> does, to a new empty map
  (\<^verbatim>\<open>null\<close> leaves the map nil); and the \<^verbatim>\<open>Record\<close> that results.
\<close>

definition sample_fields :: RecordFields where
  "sample_fields =
     \<lparr> ID = 7, ZoneID = 1, Active = True, Class = ''IN'', Type = ''A'', TTL = 60,
       DataRaw = ''{}'', IsConditional = False, ConditionalCount = 0, ConditionalLimit = 0,
       ConditionalReset = False, ConditionalDataRaw = ''{}'' \<rparr>"

definition sample_unmarshal_record :: "bytes \<Rightarrow> string + RecordFields" where
  "sample_unmarshal_record respBody =
     (if respBody = ''record 7'' then Inr sample_fields
      else Inl ''unexpected end of JSON input'')"

definition sample_unmarshal_object :: "string \<Rightarrow> string + (string \<rightharpoonup> string) option" where
  "sample_unmarshal_object raw =
     (if raw = ''{}'' then Inr (Some Map.empty)
      else if raw = ''null'' then Inr None
      else Inl ''invalid character'')"

definition sample_record :: "string Record" where
  "sample_record =
     \<lparr> ID = 7, ZoneID = 1, Active = True, Class = ''IN'', Type = ''A'', TTL = 60,
       DataRaw = ''{}'', IsConditional = False, ConditionalCount = 0, ConditionalLimit = 0,
       ConditionalReset = False, ConditionalDataRaw = ''{}'',
       Data = Some Map.empty, ConditionalData = None \<rparr>"

text \<open>
  Clients for the backoff: one with a minimum wait of 3 nanoseconds, and the one of
  \<^verbatim>\<open>TestRetryLogic\<close>, with 10 and 50 milliseconds.
\<close>

definition three_ns_client :: Client where
  "three_ns_client = (NewClient ''http://dns'' ''key'')\<lparr> RetryWaitMin := 3 \<rparr>"

definition test_client :: Client where
  "test_client = (NewClient ''http://dns'' ''key'')
     \<lparr> MaxRetries := 3, RetryWaitMin := 10000000, RetryWaitMax := 50000000 \<rparr>"

section \<open>Auxiliary facts\<close>

subsection \<open>The loop counter as a signed 64-bit word\<close>

lemma sint_of_nat_small: "int k < 2 ^ 63 \<Longrightarrow> sint (of_nat k :: 64 word) = int k"
proof -
  assume a: "int k < 2 ^ 63"
  have "sint (of_nat k :: 64 word) = signed_take_bit 63 (int k)"
    using sint_sbintrunc' [where 'a = 64, of "int k"] by simp
  also have "\<dots> = int k"
    using a by (intro signed_take_bit_int_eq_self) simp_all
  finally show ?thesis .
qed

lemma sint_max: "sint (x :: 64 word) \<le> 9223372036854775807"
  using sint_lt [of x] by simp

lemma of_nat_sle: "int k \<le> sint (m :: 64 word) \<Longrightarrow> (of_nat k :: 64 word) <=s m"
  using sint_max [of m] by (simp add: word_sle_eq sint_of_nat_small)

lemma of_nat_sless_pos: "int k < 2 ^ 63 \<Longrightarrow> (0 <s (of_nat k :: 64 word)) = (0 < k)"
  by (simp add: word_sless_alt sint_of_nat_small)

lemma of_nat_not_sle:
  "sint (m :: 64 word) < int k \<Longrightarrow> int k < 2 ^ 63 \<Longrightarrow> \<not> (of_nat k :: 64 word) <=s m"
  by (simp add: word_sle_eq sint_of_nat_small)

subsection \<open>Counting events\<close>

lemma attempts_append [simp]: "attempts (xs @ ys) = attempts xs + attempts ys"
  by (induction xs rule: attempts.induct) auto

lemma waits_append [simp]: "waits (xs @ ys) = waits xs + waits ys"
  by (induction xs rule: waits.induct) auto

lemma marshals_append [simp]: "marshals (xs @ ys) = marshals xs + marshals ys"
  by (induction xs rule: marshals.induct) auto

lemma bodies_sent_append [simp]: "bodies_sent (xs @ ys) = bodies_sent xs @ bodies_sent ys"
  by (induction xs rule: bodies_sent.induct) auto

lemma attempts_iterations [simp]: "attempts (iterations method path jsonData k) = k"
  by (induction k) auto

lemma waits_iterations [simp]: "waits (iterations method path jsonData k) = k - 1"
  by (induction k) auto

lemma marshals_iterations [simp]: "marshals (iterations method path jsonData k) = 0"
  by (induction k) auto

subsection \<open>Unfolding the loop\<close>

lemma transient_retried: "transient_failure w j \<Longrightarrow> retried w j"
  by (auto simp: transient_failure_def retried_def split: transport.splits)

lemma transport_failed_error:
  "transport_failed tp \<Longrightarrow> \<exists>rb sc err. executeRequest tp = (rb, sc, Some err)"
  by (cases tp) simp_all

text \<open>
  One iteration of the loop at counter \<open>k\<close>, within the budget.
\<close>

lemma retry_loop_at:
  assumes "int k \<le> sint (MaxRetries c)"
  shows "retry_loop (Suc fuel) c w method path jsonData (of_nat k) k lastErr tr =
     (case (if 0 < k then wait_done w k else None) of
        Some e \<Rightarrow> (Some (Inl (ContextError e)), tr @ [Backoff (of_nat k)])
      | None \<Rightarrow>
          (let tr2 = tr @ (if 0 < k then [Backoff (of_nat k)] else [])
                       @ [Execute method path jsonData]
           in case executeRequest (transport_at w k) of
                (respBody, statusCode, Some err) \<Rightarrow>
                  (case ctx_err w k of
                     Some e \<Rightarrow> (Some (Inl (ContextError e)), tr2)
                   | None \<Rightarrow>
                       retry_loop fuel c w method path jsonData (of_nat (Suc k)) (Suc k)
                         (Some err) tr2)
              | (respBody, statusCode, None) \<Rightarrow>
                  if 200 \<le> statusCode \<and> statusCode < 300 then (Some (Inr respBody), tr2)
                  else if 400 \<le> statusCode \<and> statusCode < 500
                  then (Some (Inl (StatusFailed statusCode respBody)), tr2)
                  else retry_loop fuel c w method path jsonData (of_nat (Suc k)) (Suc k)
                         (Some (StatusFailed statusCode respBody)) tr2))"
proof -
  have le: "(of_nat k :: 64 word) <=s MaxRetries c"
    using assms by (rule of_nat_sle)
  have small: "int k < 2 ^ 63"
    using assms sint_max [of "MaxRetries c"] by simp
  have pos: "(0 <s (of_nat k :: 64 word)) = (0 < k)"
    using small by (rule of_nat_sless_pos)
  obtain rb sc err where ex: "executeRequest (transport_at w k) = (rb, sc, err)"
    by (cases "executeRequest (transport_at w k)")
  show ?thesis
    using le pos ex
    by (cases "k = 0"; cases err; cases "wait_done w k"; cases "ctx_err w k")
       (simp_all add: Let_def add.commute)
qed

text \<open>
  The loop condition fails once the counter is past the budget.
\<close>

lemma retry_loop_exit:
  assumes "sint (MaxRetries c) < int k" and "int k < 2 ^ 63"
  shows "retry_loop (Suc fuel) c w method path jsonData (of_nat k) k lastErr tr =
         (Some (Inl (RetriesFailed (MaxRetries c) lastErr)), tr)"
  using of_nat_not_sle [OF assms] by simp

text \<open>
  One iteration that is retried, and \<open>k\<close> of them in a row from the start.
\<close>

lemma retry_loop_step:
  assumes "int k \<le> sint (MaxRetries c)" and "timer_fires w k" and "retried w k"
  shows "retry_loop (Suc fuel) c w method path jsonData (of_nat k) k lastErr tr =
         retry_loop fuel c w method path jsonData (of_nat (Suc k)) (Suc k)
           (Some (recorded_failure w k))
           (tr @ (if k = 0 then [] else [Backoff (of_nat k)]) @ [Execute method path jsonData])"
proof -
  have le: "(of_nat k :: 64 word) <=s MaxRetries c"
    using assms(1) by (rule of_nat_sle)
  have small: "int k < 2 ^ 63"
    using assms(1) sint_max [of "MaxRetries c"] by simp
  have pos: "(0 <s (of_nat k :: 64 word)) = (0 < k)"
    using small by (rule of_nat_sless_pos)
  have w: "(if 0 < k then wait_done w k else None) = None"
    using assms(2) by (auto simp: timer_fires_def)
  show ?thesis
    using assms(3) le pos w
    by (cases "transport_at w k")
       (auto simp: retried_def recorded_failure_def Let_def add.commute)
qed

lemma retry_loop_run:
  assumes "int k \<le> sint (MaxRetries c) + 1"
    and "\<forall>j<k. timer_fires w j \<and> retried w j"
  shows "retry_loop (fuel + k) c w method path jsonData 0 0 None tr =
         retry_loop fuel c w method path jsonData (of_nat k) k
           (if k = 0 then None else Some (recorded_failure w (k - 1)))
           (tr @ iterations method path jsonData k)"
  using assms
proof (induction k arbitrary: fuel)
  case 0
  then show ?case by simp
next
  case (Suc k)
  have "retry_loop (fuel + Suc k) c w method path jsonData 0 0 None tr =
        retry_loop (Suc fuel + k) c w method path jsonData 0 0 None tr"
    by simp
  also have "\<dots> = retry_loop (Suc fuel) c w method path jsonData (of_nat k) k
           (if k = 0 then None else Some (recorded_failure w (k - 1)))
           (tr @ iterations method path jsonData k)"
    using Suc.prems by (intro Suc.IH) auto
  also have "\<dots> = retry_loop fuel c w method path jsonData (of_nat (Suc k)) (Suc k)
           (Some (recorded_failure w k))
           ((tr @ iterations method path jsonData k)
              @ (if k = 0 then [] else [Backoff (of_nat k)]) @ [Execute method path jsonData])"
    using Suc.prems by (intro retry_loop_step) auto
  finally show ?case by simp
qed

lemma doRequestWithContext_serialized:
  "serializes marshal body jsonData \<Longrightarrow>
   doRequestWithContext fuel c marshal w method path body =
   retry_loop fuel c w method path jsonData 0 0 None (if body = None then [] else [Marshal])"
  by (cases body; cases jsonData) (auto simp: serializes_def doRequestWithContext_def)

lemma call_run:
  assumes "serializes marshal body jsonData"
    and "int k \<le> sint (MaxRetries c) + 1"
    and "\<forall>j<k. timer_fires w j \<and> retried w j"
  shows "doRequestWithContext (Suc fuel + k) c marshal w method path body =
         retry_loop (Suc fuel) c w method path jsonData (of_nat k) k
           (if k = 0 then None else Some (recorded_failure w (k - 1)))
           ((if body = None then [] else [Marshal]) @ iterations method path jsonData k)"
  using assms by (simp only: doRequestWithContext_serialized retry_loop_run)

text \<open>
  With the largest budget the loop condition holds for every value of the counter: as
  long as every attempt is retried, the loop goes on, one attempt per unit of fuel.
\<close>

lemma retry_loop_forever:
  assumes "MaxRetries c = 9223372036854775807"
    and "\<forall>j. wait_done w j = None \<and> retried w j"
  shows "fst (retry_loop fuel c w method path jsonData attempt n lastErr tr) = None
         \<and> attempts (snd (retry_loop fuel c w method path jsonData attempt n lastErr tr)) =
           attempts tr + fuel"
proof (induction fuel arbitrary: attempt n lastErr tr)
  case 0
  show ?case by simp
next
  case (Suc fuel)
  have le: "attempt <=s MaxRetries c"
    using sint_max [of attempt] by (simp add: assms(1) word_sle_eq)
  have w: "wait_done w n = None" and r: "retried w n"
    using assms(2) by simp_all
  obtain rb sc err where ex: "executeRequest (transport_at w n) = (rb, sc, err)"
    by (cases "executeRequest (transport_at w n)")
  show ?case
    using le w r ex Suc.IH
    by (cases "transport_at w n") (auto simp: retried_def Let_def)
qed

text \<open>
  Whatever the loop does, it only adds events to the trace, none of them a serialization,
  and every call of \<^verbatim>\<open>executeRequest\<close> among them is given the same \<^verbatim>\<open>jsonData\<close>.
\<close>

lemma retry_loop_trace:
  "\<exists>tr'. snd (retry_loop fuel c w method path jsonData attempt n lastErr tr) = tr @ tr'
     \<and> marshals tr' = 0 \<and> set (bodies_sent tr') \<subseteq> {jsonData}"
proof (induction fuel arbitrary: attempt n lastErr tr)
  case 0
  show ?case by simp
next
  case (Suc fuel)
  let ?tr2 = "(if 0 <s attempt then tr @ [Backoff attempt] else tr)
                @ [Execute method path jsonData]"
  obtain rb sc err where ex: "executeRequest (transport_at w n) = (rb, sc, err)"
    by (cases "executeRequest (transport_at w n)")
  have rec: "\<exists>tr'. snd (retry_loop fuel c w method path jsonData (attempt + 1) (Suc n) le ?tr2)
                 = tr @ tr' \<and> marshals tr' = 0 \<and> set (bodies_sent tr') \<subseteq> {jsonData}" for le
  proof -
    obtain t where t: "snd (retry_loop fuel c w method path jsonData (attempt + 1) (Suc n) le ?tr2)
        = ?tr2 @ t" "marshals t = 0" "set (bodies_sent t) \<subseteq> {jsonData}"
      using Suc.IH [of "attempt + 1" "Suc n" le ?tr2] by blast
    show ?thesis
      by (rule exI [of _ "(if 0 <s attempt then [Backoff attempt] else [])
            @ [Execute method path jsonData] @ t"]) (use t in auto)
  qed
  have here: "\<exists>tr'. ?tr2 = tr @ tr' \<and> marshals tr' = 0 \<and> set (bodies_sent tr') \<subseteq> {jsonData}"
    by (rule exI [of _ "(if 0 <s attempt then [Backoff attempt] else [])
            @ [Execute method path jsonData]"]) auto
  have wait: "\<exists>tr'. tr @ [Backoff attempt] = tr @ tr' \<and> marshals tr' = 0
                 \<and> set (bodies_sent tr') \<subseteq> {jsonData}"
    by (rule exI [of _ "[Backoff attempt]"]) auto
  have stop: "\<exists>tr'. tr = tr @ tr' \<and> marshals tr' = 0 \<and> set (bodies_sent tr') \<subseteq> {jsonData}"
    by (rule exI [of _ "[]"]) auto
  show ?case
    using ex rec here wait stop
    by (cases "0 <s attempt"; cases err; cases "ctx_err w n"; cases "wait_done w n")
       (simp_all add: Let_def)
qed

subsection \<open>Decoding a record\<close>

lemma decode_record_Inr:
  assumes "decode_record unmarshal_record unmarshal_object respBody = Inr r"
  shows "unmarshal_record respBody = Inr (RecordFields.truncate r)
         \<and> (if DataRaw r \<noteq> [] then unmarshal_object (DataRaw r) else Inr None) = Inr (Data r)
         \<and> (if ConditionalDataRaw r \<noteq> [] \<and> ConditionalDataRaw r \<noteq> emptyJSON
             then unmarshal_object (ConditionalDataRaw r) else Inr None)
           = Inr (ConditionalData r)"
proof (cases "unmarshal_record respBody")
  case (Inl cause)
  with assms show ?thesis by (simp add: decode_record_def)
next
  case (Inr decoded)
  with assms show ?thesis
    by (cases decoded)
       (auto simp: decode_record_def Let_def RecordFields.defs Record.defs
             split: if_splits sum.splits)
qed

subsection \<open>Rounding to binary64\<close>

lemma finite_grid: "finite grid"
  by (simp add: grid_def)

lemma gridI: "\<bar>m\<bar> \<le> 2 ^ 53 \<Longrightarrow> - 1074 \<le> e \<Longrightarrow> e \<le> 971 \<Longrightarrow> of_int m * 2 powi e \<in> grid"
  unfolding grid_def by (rule image_eqI [of _ _ "(m, e)"]) auto

lemma grid_top: "2 ^ 1024 \<in> grid"
  using gridI [of "2 ^ 53" 971] by (simp add: power_int_def flip: power_add)

lemma grid_bot: "- (2 ^ 1024) \<in> grid"
  using gridI [of "- (2 ^ 53)" 971] by (simp add: power_int_def flip: power_add)

lemma below_nonempty: "\<bar>x\<bar> < 2 ^ 1024 \<Longrightarrow> - (2 ^ 1024) \<in> {y \<in> grid. y \<le> x}"
  using grid_bot by auto

lemma above_nonempty: "\<bar>x\<bar> < 2 ^ 1024 \<Longrightarrow> 2 ^ 1024 \<in> {y \<in> grid. x \<le> y}"
  using grid_top by auto

text \<open>
  The two neighbours of \<open>x\<close> on the grid.
\<close>

lemma neighbours:
  assumes "\<bar>x\<bar> < 2 ^ 1024"
  defines "lo \<equiv> Max {y \<in> grid. y \<le> x}" and "hi \<equiv> Min {y \<in> grid. x \<le> y}"
  shows "lo \<in> grid" "lo \<le> x" "hi \<in> grid" "x \<le> hi"
    "\<And>g. g \<in> grid \<Longrightarrow> g \<le> x \<Longrightarrow> g \<le> lo"
    "\<And>g. g \<in> grid \<Longrightarrow> x \<le> g \<Longrightarrow> hi \<le> g"
proof -
  have f1: "finite {y \<in> grid. y \<le> x}" and f2: "finite {y \<in> grid. x \<le> y}"
    using finite_grid by auto
  have n1: "{y \<in> grid. y \<le> x} \<noteq> {}" and n2: "{y \<in> grid. x \<le> y} \<noteq> {}"
    using below_nonempty [OF assms(1)] above_nonempty [OF assms(1)] by blast+
  have "lo \<in> {y \<in> grid. y \<le> x}"
    unfolding lo_def using f1 n1 by (rule Max_in)
  then show "lo \<in> grid" "lo \<le> x" by auto
  have "hi \<in> {y \<in> grid. x \<le> y}"
    unfolding hi_def using f2 n2 by (rule Min_in)
  then show "hi \<in> grid" "x \<le> hi" by auto
  show "g \<le> lo" if "g \<in> grid" "g \<le> x" for g
    unfolding lo_def using f1 that by (intro Max_ge) auto
  show "hi \<le> g" if "g \<in> grid" "x \<le> g" for g
    unfolding hi_def using f2 that by (intro Min_le) auto
qed

text \<open>
  Below the overflow threshold rounding returns a nearest point of the grid, and no point
  of the grid lies between \<open>x\<close> and it.
\<close>

lemma round64_cases:
  assumes "\<bar>x\<bar> < 2 ^ 1024"
  shows "\<exists>y\<in>grid.
           round64 x = (if \<bar>y\<bar> = 2 ^ 1024 then Infinity (0 < y) else Finite y)
           \<and> (\<forall>g\<in>grid. \<bar>y - x\<bar> \<le> \<bar>g - x\<bar>)
           \<and> (\<forall>a\<in>grid. a \<le> x \<longrightarrow> a \<le> y)
           \<and> (\<forall>b\<in>grid. x \<le> b \<longrightarrow> y \<le> b)"
proof -
  define lo where "lo = Max {y \<in> grid. y \<le> x}"
  define hi where "hi = Min {y \<in> grid. x \<le> y}"
  define y where "y = (if x - lo < hi - x then lo
                  else if hi - x < x - lo then hi
                  else if even \<lfloor>lo / (hi - lo)\<rfloor> then lo else hi)"
  note nb = neighbours [OF assms, folded lo_def hi_def]
  have r: "round64 x = (if \<bar>y\<bar> = 2 ^ 1024 then Infinity (0 < y) else Finite y)"
    using assms by (simp add: round64_def Let_def lo_def hi_def y_def)
  have yc: "y = lo \<or> y = hi" and d: "\<bar>y - x\<bar> \<le> x - lo" "\<bar>y - x\<bar> \<le> hi - x"
    using nb(2,4) by (auto simp: y_def)
  have near: "\<bar>y - x\<bar> \<le> \<bar>g - x\<bar>" if "g \<in> grid" for g
  proof (cases "g \<le> x")
    case True
    then show ?thesis using nb(5) [OF that True] d(1) by linarith
  next
    case False
    then have "x \<le> g" by simp
    then show ?thesis using nb(6) [OF that] d(2) by linarith
  qed
  have lower: "a \<le> y" if "a \<in> grid" "a \<le> x" for a
    using nb(5) [OF that] nb(2,4) yc by auto
  have upper: "y \<le> b" if "b \<in> grid" "x \<le> b" for b
    using nb(6) [OF that] nb(2,4) yc by auto
  have "y \<in> grid" using yc nb(1,3) by auto
  then show ?thesis using r near lower upper by blast
qed

text \<open>
  So a number of the grid is not changed, and rounding stays between any two numbers of
  the grid that bound \<open>x\<close>.
\<close>

lemma round64_exact:
  assumes "x \<in> grid" and "\<bar>x\<bar> < 2 ^ 1024"
  shows "round64 x = Finite x"
proof -
  obtain y where y: "round64 x = (if \<bar>y\<bar> = 2 ^ 1024 then Infinity (0 < y) else Finite y)"
    and lo: "\<forall>a\<in>grid. a \<le> x \<longrightarrow> a \<le> y"
    and hi: "\<forall>b\<in>grid. x \<le> b \<longrightarrow> y \<le> b"
    using round64_cases [OF assms(2)] by blast
  have "y = x" using lo hi assms(1) by force
  then show ?thesis using y assms(2) by simp
qed

lemma round64_between:
  assumes "a \<in> grid" "b \<in> grid" "a \<le> x" "x \<le> b" "\<bar>a\<bar> < 2 ^ 1024" "\<bar>b\<bar> < 2 ^ 1024"
  shows "\<exists>y\<in>grid. round64 x = Finite y \<and> a \<le> y \<and> y \<le> b
           \<and> (\<forall>g\<in>grid. \<bar>y - x\<bar> \<le> \<bar>g - x\<bar>)"
proof -
  have x: "\<bar>x\<bar> < 2 ^ 1024" using assms(3-6) by linarith
  obtain y where g: "y \<in> grid"
    and y: "round64 x = (if \<bar>y\<bar> = 2 ^ 1024 then Infinity (0 < y) else Finite y)"
    and near: "\<forall>g\<in>grid. \<bar>y - x\<bar> \<le> \<bar>g - x\<bar>"
    and lo: "\<forall>a\<in>grid. a \<le> x \<longrightarrow> a \<le> y"
    and hi: "\<forall>b\<in>grid. x \<le> b \<longrightarrow> y \<le> b"
    using round64_cases [OF x] by blast
  have ab: "a \<le> y" "y \<le> b" using lo hi assms(1-4) by auto
  then have "\<bar>y\<bar> < 2 ^ 1024" using assms(5,6) by linarith
  then have "round64 x = Finite y" using y by simp
  then show ?thesis using ab g near by blast
qed

lemma round64_above:
  assumes "a \<in> grid" and "a \<le> x" and "0 < a"
  shows "round64 x = Infinity True \<or> (\<exists>y. round64 x = Finite y \<and> a \<le> y)"
proof (cases "2 ^ 1024 \<le> \<bar>x\<bar>")
  case True
  then show ?thesis using assms(2,3) by (simp add: round64_def)
next
  case False
  then have "\<bar>x\<bar> < 2 ^ 1024" by simp
  then obtain y where y: "round64 x = (if \<bar>y\<bar> = 2 ^ 1024 then Infinity (0 < y) else Finite y)"
    and lo: "\<forall>a\<in>grid. a \<le> x \<longrightarrow> a \<le> y"
    using round64_cases by blast
  have "a \<le> y" using lo assms(1,2) by blast
  then show ?thesis using y assms(3) by auto
qed

text \<open>
  Numbers of the grid: integers up to \<open>2^53\<close>, their binary fractions, powers of two.
\<close>

lemma real_of_int_bound: "\<bar>k\<bar> \<le> 2 ^ n \<Longrightarrow> \<bar>of_int k :: real\<bar> \<le> 2 ^ n"
proof -
  assume "\<bar>k\<bar> \<le> 2 ^ n"
  then have "real_of_int \<bar>k\<bar> \<le> real_of_int (2 ^ n)" by (simp only: of_int_le_iff)
  then show ?thesis by simp
qed

lemma grid_int: "\<bar>k\<bar> \<le> 2 ^ 53 \<Longrightarrow> of_int k \<in> grid"
  using gridI [of k 0] by simp

lemma grid_scaled:
  "\<bar>k\<bar> \<le> 2 ^ 53 \<Longrightarrow> d \<le> 1074 \<Longrightarrow> of_int k / 2 ^ d \<in> grid"
proof -
  assume k: "\<bar>k\<bar> \<le> 2 ^ 53" and d: "d \<le> 1074"
  have "(2::real) powi (- int d) = 1 / 2 ^ d"
    by (simp add: power_int_minus inverse_eq_divide)
  then have "of_int k / 2 ^ d = of_int k * (2::real) powi (- int d)"
    by simp
  moreover have "of_int k * (2::real) powi (- int d) \<in> grid"
    using k d by (intro gridI) auto
  ultimately show ?thesis by simp
qed

lemma grid_quarter: "\<bar>k\<bar> \<le> 2 ^ 53 \<Longrightarrow> of_int k / 4 \<in> grid"
  using grid_scaled [of k 2] by simp

lemma grid_pow2: "0 \<le> n \<Longrightarrow> n \<le> 1023 \<Longrightarrow> 2 powi n \<in> grid"
proof (cases "n \<le> 971")
  case True
  assume "0 \<le> n"
  then show ?thesis using gridI [of 1 n] True by simp
next
  case False
  assume n: "0 \<le> n" "n \<le> 1023"
  define j where "j = nat (n - 971)"
  have j: "n = int j + 971" "j \<le> 52"
    using n False by (auto simp: j_def)
  have "(2::int) ^ j \<le> 2 ^ 52"
    using j(2) by (intro power_increasing) auto
  then have "\<bar>(2::int) ^ j\<bar> \<le> 2 ^ 53"
    by simp
  then have g: "of_int (2 ^ j) * 2 powi 971 \<in> grid"
    by (intro gridI) simp_all
  have "(2::real) powi n = 2 powi int j * 2 powi 971"
    unfolding j(1) by (rule power_int_add) simp
  also have "(2::real) powi int j = of_int (2 ^ j)"
    by (simp only: power_int_of_nat of_int_power of_int_numeral)
  finally show ?thesis using g by (simp only:)
qed

lemma grid_near:
  assumes "0 \<le> x" and "x * 2 ^ d \<le> 2 ^ 53 - 1" and "d \<le> 1074"
  shows "\<exists>g\<in>grid. \<bar>g - x\<bar> \<le> 1 / 2 ^ Suc d"
proof -
  define k where "k = round (x * 2 ^ d)"
  have c: "\<bar>of_int k - x * 2 ^ d\<bar> \<le> 1 / 2"
    unfolding k_def by (rule of_int_round_abs_le)
  have "0 \<le> x * 2 ^ d" using assms(1) by simp
  then have k0: "0 \<le> k"
    unfolding k_def using round_mono [of 0 "x * 2 ^ d"] by simp
  have "of_int k \<le> x * 2 ^ d + 1 / 2" using c by linarith
  also have "\<dots> \<le> 2 ^ 53 - 1 + 1 / 2" using assms(2) by simp
  finally have "real_of_int k < 2 ^ 53" by simp
  then have "real_of_int k < real_of_int (2 ^ 53)" by simp
  then have "k < 2 ^ 53" by (simp only: of_int_less_iff)
  then have kb: "\<bar>k\<bar> \<le> 2 ^ 53" using k0 by simp
  have g: "of_int k / 2 ^ d \<in> grid"
    using kb assms(3) by (rule grid_scaled)
  have "of_int k / 2 ^ d - x = (of_int k - x * 2 ^ d) / (2::real) ^ d"
    by (simp add: diff_divide_distrib)
  then have "\<bar>of_int k / 2 ^ d - x\<bar> = \<bar>of_int k - x * 2 ^ d\<bar> / 2 ^ d"
    by (simp add: abs_divide)
  also have "\<dots> \<le> (1 / 2) / 2 ^ d"
    using c by (intro divide_right_mono) auto
  finally have "\<bar>of_int k / 2 ^ d - x\<bar> \<le> 1 / 2 ^ Suc d" by simp
  then show ?thesis using g by blast
qed

lemma pow2_small: "0 \<le> n \<Longrightarrow> n \<le> 1023 \<Longrightarrow> pow2 n = Finite (2 powi n)"
proof -
  assume n: "0 \<le> n" "n \<le> 1023"
  have "(2::real) powi n \<le> 2 powi 1023"
    using n by (intro power_int_increasing) auto
  also have "\<dots> < 2 ^ 1024" by (simp add: power_int_def)
  finally have "\<bar>(2::real) powi n\<bar> < 2 ^ 1024" by simp
  then show ?thesis
    unfolding pow2_def using n by (intro round64_exact grid_pow2)
qed

lemma pow2_large: "1024 \<le> n \<Longrightarrow> pow2 n = Infinity True"
proof -
  assume n: "1024 \<le> n"
  have "(2::real) ^ 1024 = 2 powi 1024" by (simp add: power_int_def)
  also have "\<dots> \<le> 2 powi n"
    using n by (intro power_int_increasing) auto
  finally show ?thesis
    by (simp add: pow2_def round64_def)
qed

lemma of_int64_exact: "\<bar>k\<bar> \<le> 2 ^ 53 \<Longrightarrow> of_int64 k = Finite (of_int k)"
proof -
  assume k: "\<bar>k\<bar> \<le> 2 ^ 53"
  then have "\<bar>of_int k :: real\<bar> \<le> 2 ^ 53"
    by (rule real_of_int_bound)
  then have "\<bar>of_int k :: real\<bar> < 2 ^ 1024" by simp
  then show ?thesis
    unfolding of_int64_def using k by (intro round64_exact grid_int)
qed

lemma of_int64_pos:
  assumes "1 \<le> k" and "k < 2 ^ 63"
  shows "\<exists>m. of_int64 k = Finite m \<and> 1 \<le> m
             \<and> (k \<le> 2 ^ 53 \<longrightarrow> m = of_int k) \<and> (2 ^ 53 \<le> k \<longrightarrow> 2 ^ 53 \<le> m)"
proof (cases "k \<le> 2 ^ 53")
  case True
  then have "of_int64 k = Finite (of_int k)"
    using assms(1) by (intro of_int64_exact) simp
  moreover have "(2::real) ^ 53 \<le> of_int k" if "2 ^ 53 \<le> k"
  proof -
    have "real_of_int (2 ^ 53) \<le> real_of_int k" using that by (simp only: of_int_le_iff)
    then show ?thesis by simp
  qed
  ultimately show ?thesis using assms(1) by auto
next
  case False
  have g1: "(2::real) ^ 53 \<in> grid" using grid_int [of "2 ^ 53"] by simp
  have g2: "(2::real) ^ 63 \<in> grid" using grid_pow2 [of 63] by (simp add: power_int_def)
  have "real_of_int (2 ^ 53) \<le> real_of_int k" "real_of_int k \<le> real_of_int (2 ^ 63)"
    using False assms(2) by (simp_all only: of_int_le_iff)
  then have "(2::real) ^ 53 \<le> of_int k" "real_of_int k \<le> 2 ^ 63" by simp_all
  then obtain y where "round64 (of_int k) = Finite y" "2 ^ 53 \<le> y"
    using round64_between [OF g1 g2, of "of_int k"] by auto
  then show ?thesis using False by (auto simp: of_int64_def)
qed

lemma round64_quarter: "\<bar>k\<bar> \<le> 2 ^ 53 \<Longrightarrow> round64 (of_int k / 4) = Finite (of_int k / 4)"
proof -
  assume k: "\<bar>k\<bar> \<le> 2 ^ 53"
  then have "\<bar>of_int k :: real\<bar> \<le> 2 ^ 53"
    by (rule real_of_int_bound)
  then have "\<bar>of_int k / 4 :: real\<bar> < 2 ^ 1024" by simp
  then show ?thesis
    using k by (intro round64_exact grid_quarter)
qed

lemma sint_pred: "1 \<le> sint (a :: 64 word) \<Longrightarrow> sint (a - 1) = sint a - 1"
proof -
  assume a: "1 \<le> sint a"
  have "sint (a - 1) = signed_take_bit 63 (sint a - 1)"
    by (simp add: sint_word_ariths)
  also have "\<dots> = sint a - 1"
    using a sint_max [of a] by (intro signed_take_bit_int_eq_self) simp_all
  finally show ?thesis .
qed

subsection \<open>The two stages of the backoff\<close>

text \<open>
  The capped backoff is the base of the specification, a whole number.
\<close>

lemma capped_backoff:
  fixes Rmin Rmax n :: int
  assumes Rmin: "0 \<le> Rmin" "Rmin < 2 ^ 63" and Rmax: "0 \<le> Rmax" "Rmax < 2 ^ 63"
    and n: "0 \<le> n" "1 \<le> Rmin \<or> n \<le> 1023"
    and B: "min (Rmin * 2 ^ nat n) Rmax \<le> 2 ^ 50"
  shows "(if f64_gt (f64_mul (of_int64 Rmin) (pow2 n)) (of_int64 Rmax)
          then of_int64 Rmax else f64_mul (of_int64 Rmin) (pow2 n))
         = Finite (of_int (min (Rmin * 2 ^ nat n) Rmax))"
proof -
  define B where "B = min (Rmin * 2 ^ nat n) Rmax"
  have Bb: "0 \<le> B" "B \<le> 2 ^ 50" "B \<le> Rmax"
    using Rmin(1) Rmax(1) B by (simp_all add: B_def)
  have gB: "real_of_int B \<in> grid"
    using Bb by (intro grid_int) simp
  have eB: "round64 (of_int B) = Finite (of_int B)"
    using of_int64_exact [of B] Bb by (simp add: of_int64_def)
  have pw: "(2::real) powi n = 2 ^ nat n"
    using n(1) by (simp add: power_int_def)
  have "?thesis = ((if f64_gt (f64_mul (of_int64 Rmin) (pow2 n)) (of_int64 Rmax)
          then of_int64 Rmax else f64_mul (of_int64 Rmin) (pow2 n)) = Finite (of_int B))"
    by (simp only: B_def)
  moreover have "(if f64_gt (f64_mul (of_int64 Rmin) (pow2 n)) (of_int64 Rmax)
          then of_int64 Rmax else f64_mul (of_int64 Rmin) (pow2 n)) = Finite (of_int B)"
  proof (cases "Rmin * 2 ^ nat n \<le> Rmax")
    case True
    then have B: "B = Rmin * 2 ^ nat n" by (simp add: B_def)
    have n1023: "n \<le> 1023"
    proof (rule ccontr)
      assume "\<not> n \<le> 1023"
      then have big: "50 < nat n" and "1 \<le> Rmin" using n(2) by auto
      have "(2::int) ^ 50 < 2 ^ nat n" using big by (intro power_strict_increasing) auto
      also have "\<dots> \<le> Rmin * 2 ^ nat n" using \<open>1 \<le> Rmin\<close> by simp
      finally show False using Bb(2) B by simp
    qed
    have p: "pow2 n = Finite (2 ^ nat n)"
      using pow2_small [OF n(1) n1023] pw by simp
    have "Rmin \<le> 2 ^ 53"
    proof -
      have "Rmin * 1 \<le> Rmin * 2 ^ nat n" using Rmin(1) by (intro mult_left_mono) auto
      then show ?thesis using Bb(2) B by simp
    qed
    then have m: "of_int64 Rmin = Finite (of_int Rmin)"
      using Rmin(1) by (intro of_int64_exact) simp
    have prod: "f64_mul (of_int64 Rmin) (pow2 n) = Finite (of_int B)"
      using eB by (simp add: m p B)
    have g2: "(2::real) ^ 63 \<in> grid" using grid_pow2 [of 63] by (simp add: power_int_def)
    have "real_of_int B \<le> real_of_int Rmax" "real_of_int Rmax \<le> real_of_int (2 ^ 63)"
      using Bb(3) Rmax(2) by (simp_all only: of_int_le_iff)
    moreover have "\<bar>real_of_int B\<bar> < 2 ^ 1024"
      using real_of_int_bound [of B 50] Bb by simp
    ultimately obtain M where M: "of_int64 Rmax = Finite M" "real_of_int B \<le> M"
      using round64_between [OF gB g2, of "of_int Rmax"] by (auto simp: of_int64_def)
    have "\<not> f64_gt (Finite (of_int B)) (Finite M)"
      using M(2) by simp
    then show ?thesis by (simp only: prod M(1) if_False)
  next
    case False
    then have B: "B = Rmax" by (simp add: B_def)
    have M: "of_int64 Rmax = Finite (of_int Rmax)"
      using Rmax(1) Bb(2) B by (intro of_int64_exact) simp
    have R1: "1 \<le> Rmin"
    proof (rule ccontr)
      assume "\<not> 1 \<le> Rmin"
      then have "Rmin = 0" using Rmin(1) by simp
      then show False using False Rmax(1) by simp
    qed
    obtain m where m: "of_int64 Rmin = Finite m" "1 \<le> m"
      and me: "Rmin \<le> 2 ^ 53 \<longrightarrow> m = of_int Rmin" and mb: "2 ^ 53 \<le> Rmin \<longrightarrow> 2 ^ 53 \<le> m"
      using of_int64_pos [OF R1 Rmin(2)] by blast
    have gt: "f64_gt (f64_mul (of_int64 Rmin) (pow2 n)) (Finite (of_int Rmax))"
    proof (cases "n \<le> 1023")
      case n1023: True
      have p: "pow2 n = Finite (2 ^ nat n)"
        using pow2_small [OF n(1) n1023] pw by simp
      have ga: "real_of_int (Rmax + 1) \<in> grid"
        using Rmax(1) Bb(2) B by (intro grid_int) simp
      have P: "real_of_int (Rmax + 1) \<le> m * 2 ^ nat n"
      proof (cases "Rmin \<le> 2 ^ 53")
        case True
        have "Rmax + 1 \<le> Rmin * 2 ^ nat n" using False by simp
        then have "real_of_int (Rmax + 1) \<le> real_of_int (Rmin * 2 ^ nat n)"
          by (simp only: of_int_le_iff)
        then show ?thesis using me True by simp
      next
        case False
        then have m53: "2 ^ 53 \<le> m" using mb by simp
        have "real_of_int (Rmax + 1) \<le> real_of_int (2 ^ 53)"
          using Bb(2) B by (simp only: of_int_le_iff) simp
        also have "\<dots> \<le> m * 1" using m53 by simp
        also have "\<dots> \<le> m * 2 ^ nat n" using m(2) by (intro mult_left_mono) auto
        finally show ?thesis .
      qed
      have "0 < real_of_int (Rmax + 1)" using Rmax(1) by simp
      from round64_above [OF ga P this]
      show ?thesis using Rmax(1) by (auto simp: m(1) p)
    next
      case False
      then have "pow2 n = Infinity True" by (intro pow2_large) simp
      then show ?thesis using m by simp
    qed
    show ?thesis using gt by (simp add: M B)
  qed
  ultimately show ?thesis by simp
qed

lemma backoff_base_int:
  assumes "1 \<le> sint attempt"
  shows "backoff_base c attempt =
         of_int (min (sint (RetryWaitMin c) * 2 ^ nat (sint attempt - 1)) (sint (RetryWaitMax c)))"
proof -
  have "real_of_int (min (sint (RetryWaitMin c) * 2 ^ nat (sint attempt - 1))
          (sint (RetryWaitMax c))) =
        min (real_of_int (sint (RetryWaitMin c)) * 2 ^ nat (sint attempt - 1))
          (real_of_int (sint (RetryWaitMax c)))"
    by (simp only: of_int_min of_int_mult of_int_power of_int_numeral)
  then show ?thesis
    using assms by (simp add: backoff_base_def power_int_def del: of_int_sint)
qed

text \<open>
  The jitter stage, for a capped backoff that is a whole number of at most \<open>2^50\<close>: every
  rounding stays within the bounds, and within a quarter of the exact value.
\<close>

lemma jitter_stage:
  fixes B :: int and r :: real
  assumes B: "0 \<le> B" "B \<le> 2 ^ 50" and r: "0 \<le> r" "r \<le> 1"
  defines "b \<equiv> real_of_int B"
  shows "\<exists>w. to_duration
               (f64_add (f64_sub (Finite b) (f64_mul (Finite b) (Finite 0.25)))
                  (f64_mul (f64_mul (Finite r) (f64_mul (Finite b) (Finite 0.25))) (Finite 2)))
             = Some w
           \<and> \<lfloor>3 / 4 * b\<rfloor> \<le> w \<and> of_int w \<le> 5 / 4 * b
           \<and> b * (3 / 4 + r / 2) - 5 / 4 < of_int w
           \<and> of_int w \<le> b * (3 / 4 + r / 2) + 1 / 4"
proof -
  have b0: "0 \<le> b" and b50: "b \<le> 2 ^ 50"
    using B real_of_int_bound [of B 50] by (simp_all add: b_def)
  have small: "\<bar>of_int k / 4 :: real\<bar> < 2 ^ 1024" if "\<bar>k\<bar> \<le> 2 ^ 53" for k
    using real_of_int_bound [OF that] by simp
  \<comment> \<open>jitter := backoff * 0.25\<close>
  have j: "f64_mul (Finite b) (Finite 0.25) = Finite (b / 4)"
    using round64_quarter [of B] B by (simp add: b_def)
  \<comment> \<open>backoff - jitter\<close>
  have "b - b / 4 = of_int (3 * B) / 4" by (simp add: b_def)
  then have s: "f64_sub (Finite b) (Finite (b / 4)) = Finite (of_int (3 * B) / 4)"
    using round64_quarter [of "3 * B"] B by (simp add: f64_sub_def)
  \<comment> \<open>randomFactor * jitter\<close>
  have g0: "(0::real) \<in> grid" using grid_int [of 0] by simp
  have gq: "b / 4 \<in> grid" using grid_quarter [of B] B by (simp add: b_def)
  define y where "y = r * (b / 4)"
  have y: "0 \<le> y" "y \<le> b / 4"
    using r b0 by (simp_all add: y_def mult_left_le_one_le)
  then obtain t2 where t2: "round64 y = Finite t2" "0 \<le> t2" "t2 \<le> b / 4"
    and n2: "\<forall>g\<in>grid. \<bar>t2 - y\<bar> \<le> \<bar>g - y\<bar>"
    using round64_between [OF g0 gq, of y] small [of B] B
    by (auto simp: b_def)
  have "y * 2 ^ 4 \<le> 2 ^ 53 - 1"
    using y(2) b50 by simp
  then obtain g2 where "g2 \<in> grid" "\<bar>g2 - y\<bar> \<le> 1 / 2 ^ Suc 4"
    using grid_near [OF y(1), of 4] by auto
  then have c2: "\<bar>t2 - y\<bar> \<le> 1 / 32"
    using n2 by fastforce
  \<comment> \<open>(randomFactor * jitter) * 2\<close>
  have gh: "of_int (2 * B) / 4 \<in> grid" using grid_quarter [of "2 * B"] B by simp
  have "0 \<le> t2 * 2" "t2 * 2 \<le> of_int (2 * B) / 4"
    using t2 by (simp_all add: b_def)
  then obtain t3 where t3: "round64 (t2 * 2) = Finite t3" "0 \<le> t3" "t3 \<le> of_int (2 * B) / 4"
    and n3: "\<forall>g\<in>grid. \<bar>t3 - t2 * 2\<bar> \<le> \<bar>g - t2 * 2\<bar>"
    using round64_between [OF g0 gh, of "t2 * 2"] small [of "2 * B"] B
    by auto
  have "t2 * 2 * 2 ^ 3 \<le> 2 ^ 53 - 1"
    using t2(3) b50 by simp
  then obtain g3 where "g3 \<in> grid" "\<bar>g3 - t2 * 2\<bar> \<le> 1 / 2 ^ Suc 3"
    using grid_near [OF \<open>0 \<le> t2 * 2\<close>, of 3] by auto
  then have c3: "\<bar>t3 - t2 * 2\<bar> \<le> 1 / 16"
    using n3 by fastforce
  \<comment> \<open>the sum\<close>
  define x where "x = of_int (3 * B) / 4 + t3"
  have gl: "of_int (3 * B) / 4 \<in> grid" using grid_quarter [of "3 * B"] B by simp
  have gu: "of_int (5 * B) / 4 \<in> grid" using grid_quarter [of "5 * B"] B by simp
  have xb: "of_int (3 * B) / 4 \<le> x" "x \<le> of_int (5 * B) / 4"
    using t3 by (simp_all add: x_def)
  then obtain F where F: "round64 x = Finite F" "of_int (3 * B) / 4 \<le> F" "F \<le> of_int (5 * B) / 4"
    and nF: "\<forall>g\<in>grid. \<bar>F - x\<bar> \<le> \<bar>g - x\<bar>"
    using round64_between [OF gl gu, of x] small [of "3 * B"] small [of "5 * B"] B
    by auto
  have x0: "0 \<le> x" using xb(1) B by simp
  have "x * 2 ^ 2 \<le> 2 ^ 53 - 1"
    using xb(2) b50 by (simp add: b_def)
  then obtain gF where "gF \<in> grid" "\<bar>gF - x\<bar> \<le> 1 / 2 ^ Suc 2"
    using grid_near [OF x0, of 2] by auto
  then have cF: "\<bar>F - x\<bar> \<le> 1 / 8"
    using nF by fastforce
  \<comment> \<open>the conversion\<close>
  have F0: "0 \<le> F" using F(2) B by simp
  have "F < 2 ^ 63" using F(3) b50 by (simp add: b_def)
  then have "of_int \<lfloor>F\<rfloor> < (2::real) ^ 63" using of_int_floor_le [of F] by linarith
  then have "real_of_int \<lfloor>F\<rfloor> < real_of_int (2 ^ 63)" by simp
  then have fl63: "\<lfloor>F\<rfloor> < 2 ^ 63" by (simp only: of_int_less_iff)
  have fl0: "0 \<le> \<lfloor>F\<rfloor>" using F0 by simp
  have run: "to_duration
               (f64_add (f64_sub (Finite b) (f64_mul (Finite b) (Finite 0.25)))
                  (f64_mul (f64_mul (Finite r) (f64_mul (Finite b) (Finite 0.25))) (Finite 2)))
             = Some \<lfloor>F\<rfloor>"
  proof -
    have e3: "f64_mul (Finite r) (Finite (b / 4)) = Finite t2"
      using t2(1) by (simp add: y_def)
    have e4: "f64_mul (Finite t2) (Finite 2) = Finite t3"
      using t3(1) by simp
    have e5: "f64_add (Finite (of_int (3 * B) / 4)) (Finite t3) = Finite F"
      using F(1) by (simp add: x_def)
    have e6: "to_duration (Finite F) = Some \<lfloor>F\<rfloor>"
      using fl0 fl63 F0 by (simp add: Let_def)
    show ?thesis by (simp only: j s e3 e4 e5 e6)
  qed
  have lo: "\<lfloor>3 / 4 * b\<rfloor> \<le> \<lfloor>F\<rfloor>"
    using F(2) by (intro floor_mono) (simp add: b_def)
  have "F \<le> 5 / 4 * b"
    using F(3) by (simp add: b_def)
  then have hi: "of_int \<lfloor>F\<rfloor> \<le> 5 / 4 * b"
    using of_int_floor_le [of F] by linarith
  have v: "b * (3 / 4 + r / 2) = of_int (3 * B) / 4 + 2 * y"
    by (simp add: y_def b_def algebra_simps)
  have close: "\<bar>F - b * (3 / 4 + r / 2)\<bar> \<le> 1 / 4"
    unfolding v using cF c3 c2 x_def by linarith
  define V where "V = b * (3 / 4 + r / 2)"
  have "F - 1 < of_int \<lfloor>F\<rfloor>" "of_int \<lfloor>F\<rfloor> \<le> F"
    by linarith+
  then have "V - 5 / 4 < of_int \<lfloor>F\<rfloor>" "of_int \<lfloor>F\<rfloor> \<le> V + 1 / 4"
    using close unfolding V_def [symmetric] by linarith+
  then have "b * (3 / 4 + r / 2) - 5 / 4 < of_int \<lfloor>F\<rfloor>"
    "of_int \<lfloor>F\<rfloor> \<le> b * (3 / 4 + r / 2) + 1 / 4"
    by (simp_all only: V_def)
  then show ?thesis using run lo hi by blast
qed

section \<open>Properties of the retry orchestrator\<close>

text \<open>
  C1, as amended. For every call with \<open>0 \<le> MaxRetries < 2^63 - 1\<close> whose body is nil or
  serializes: if every one of the \<open>MaxRetries + 1\<close> attempts yields a transient failure (a
  5xx status, or a transport error while the context is not done) and no backoff is
  interrupted, then the call returns, exactly \<open>MaxRetries + 1\<close> attempts and \<open>MaxRetries\<close>
  backoff waits are performed, and the result is the retry-exhausted error that wraps the
  failure recorded at the last attempt.
\<close>

theorem retries_exhausted:
  assumes "0 \<le> sint (MaxRetries c)"
    and "sint (MaxRetries c) < 9223372036854775807"
    and "serializes marshal body jsonData"
    and "\<forall>j\<le>nat (sint (MaxRetries c)). timer_fires w j \<and> transient_failure w j"
    and "nat (sint (MaxRetries c)) + 1 < fuel"
  shows "fst (doRequestWithContext fuel c marshal w method path body) =
           Some (Inl (RetriesFailed (MaxRetries c)
                        (Some (recorded_failure w (nat (sint (MaxRetries c)))))))
         \<and> attempts (snd (doRequestWithContext fuel c marshal w method path body)) =
           nat (sint (MaxRetries c)) + 1
         \<and> waits (snd (doRequestWithContext fuel c marshal w method path body)) =
           nat (sint (MaxRetries c))"
proof -
  define k where "k = nat (sint (MaxRetries c)) + 1"
  obtain f where fuel: "fuel = Suc f + k"
    using assms(5) by (metis add.commute k_def less_iff_Suc_add add_Suc_right)
  have k1: "int k \<le> sint (MaxRetries c) + 1" and k2: "sint (MaxRetries c) < int k"
    and k3: "int k < 2 ^ 63"
    using assms(1,2) by (simp_all add: k_def)
  have tf: "\<forall>j<k. timer_fires w j \<and> retried w j"
    using assms(4) by (auto simp: k_def less_Suc_eq_le intro: transient_retried)
  have "doRequestWithContext fuel c marshal w method path body =
        (Some (Inl (RetriesFailed (MaxRetries c) (Some (recorded_failure w (k - 1))))),
         (if body = None then [] else [Marshal]) @ iterations method path jsonData k)"
    unfolding fuel call_run [OF assms(3) k1 tf] retry_loop_exit [OF k2 k3]
    by (simp add: k_def)
  then show ?thesis by (simp add: k_def)
qed

text \<open>
  The scenario of \<^verbatim>\<open>TestRetryExhausted\<close>, with the default budget of 3 retries.
\<close>

theorem retries_exhausted_witness:
  "0 \<le> sint (MaxRetries (NewClient ''http://dns'' ''key''))
   \<and> fst (doRequestWithContext 5 (NewClient ''http://dns'' ''key'') marshal_sample
            unavailable ''GET'' ''/zones/1'' None) =
       Some (Inl (RetriesFailed 3 (Some (StatusFailed 503 []))))
   \<and> attempts (snd (doRequestWithContext 5 (NewClient ''http://dns'' ''key'')
            marshal_sample unavailable ''GET'' ''/zones/1'' None)) = 4"
  using retries_exhausted [of "NewClient ''http://dns'' ''key''" marshal_sample None None
      unavailable 5 "''GET''" "''/zones/1''"]
  by (simp add: NewClient_def serializes_def timer_fires_def transient_failure_def
      unavailable_def recorded_failure_def)

text \<open>
  C1 as stated fails at \<open>MaxRetries = 2^63 - 1\<close>: \<^verbatim>\<open>attempt <= c.MaxRetries\<close> then holds for
  every value of the counter, \<^verbatim>\<open>attempt++\<close> wraps, and against a server that always answers
  503 the call never returns: whatever the fuel, the loop is still running and has made as
  many attempts as it had fuel.
\<close>

theorem retries_never_exhausted:
  "0 \<le> sint (MaxRetries unlimited_client)
   \<and> (\<forall>j. timer_fires unavailable j \<and> transient_failure unavailable j)
   \<and> (\<forall>fuel.
        fst (doRequestWithContext fuel unlimited_client marshal_sample unavailable
               ''GET'' ''/zones/1'' None) = None
        \<and> attempts (snd (doRequestWithContext fuel unlimited_client marshal_sample
               unavailable ''GET'' ''/zones/1'' None)) = fuel)"
proof -
  have m: "MaxRetries unlimited_client = 9223372036854775807"
    by (simp add: unlimited_client_def)
  have r: "\<forall>j. wait_done unavailable j = None \<and> retried unavailable j"
    by (simp add: unavailable_def retried_def)
  have t: "\<forall>j. timer_fires unavailable j \<and> transient_failure unavailable j"
    by (simp add: unavailable_def timer_fires_def transient_failure_def)
  show ?thesis
    using retry_loop_forever [OF m r] t
    by (simp add: doRequestWithContext_def m)
qed

text \<open>
  C2. For every call where the first \<open>k\<close> attempts (\<open>k \<le> MaxRetries\<close>) each yield a transient
  failure and attempt \<open>k + 1\<close> returns a status in [200,300), the call returns that
  attempt's response bytes, and exactly \<open>k + 1\<close> attempts (and \<open>k\<close> backoff waits) are
  performed.
\<close>

theorem success_after_retries:
  assumes "int k \<le> sint (MaxRetries c)"
    and "serializes marshal body jsonData"
    and "\<forall>j<k. timer_fires w j \<and> transient_failure w j"
    and "timer_fires w k"
    and "transport_at w k = Response status respBody"
    and "200 \<le> status" and "status < 300"
    and "k < fuel"
  shows "fst (doRequestWithContext fuel c marshal w method path body) = Some (Inr respBody)
         \<and> attempts (snd (doRequestWithContext fuel c marshal w method path body)) = k + 1
         \<and> waits (snd (doRequestWithContext fuel c marshal w method path body)) = k"
proof -
  obtain f where fuel: "fuel = Suc f + k"
    using assms(8) by (metis add.commute less_iff_Suc_add add_Suc_right)
  have k1: "int k \<le> sint (MaxRetries c) + 1"
    using assms(1) by simp
  have r: "\<forall>j<k. timer_fires w j \<and> retried w j"
    using assms(3) by (auto dest: transient_retried)
  have w: "(if 0 < k then wait_done w k else None) = None"
    using assms(4) by (auto simp: timer_fires_def)
  show ?thesis
    unfolding fuel call_run [OF assms(2) k1 r] retry_loop_at [OF assms(1)] w
    using assms(5-7) by (simp add: Let_def)
qed

text \<open>
  The scenario of \<^verbatim>\<open>TestRetryLogic\<close>: two 503 answers, then 200.
\<close>

theorem success_after_retries_witness:
  "int 2 \<le> sint (MaxRetries (NewClient ''http://dns'' ''key''))
   \<and> fst (doRequestWithContext 3 (NewClient ''http://dns'' ''key'') marshal_sample
            flaky ''GET'' ''/zones/1'' None) = Some (Inr ''{}'')
   \<and> attempts (snd (doRequestWithContext 3 (NewClient ''http://dns'' ''key'')
            marshal_sample flaky ''GET'' ''/zones/1'' None)) = 3"
  using success_after_retries [of 2 "NewClient ''http://dns'' ''key''" marshal_sample
      None None flaky 200 "''{}''" 3 "''GET''" "''/zones/1''"]
  by (simp add: NewClient_def serializes_def timer_fires_def transient_failure_def flaky_def)

text \<open>
  C3. For every call whose attempt \<open>k + 1\<close> returns a status in [400,500), the first \<open>k\<close>
  attempts being those the loop retries, the call fails at once with the error that carries
  the status code and the raw response body, and no attempt follows: exactly \<open>k + 1\<close>
  attempts are performed. With \<open>k = 0\<close>: a 4xx on the first attempt gives exactly 1
  attempt, whatever the budget \<open>MaxRetries \<ge> 0\<close>.
\<close>

theorem terminal_failure_not_retried:
  assumes "int k \<le> sint (MaxRetries c)"
    and "serializes marshal body jsonData"
    and "\<forall>j<k. timer_fires w j \<and> retried w j"
    and "timer_fires w k"
    and "transport_at w k = Response status respBody"
    and "400 \<le> status" and "status < 500"
    and "k < fuel"
  shows "fst (doRequestWithContext fuel c marshal w method path body) =
           Some (Inl (StatusFailed status respBody))
         \<and> attempts (snd (doRequestWithContext fuel c marshal w method path body)) = k + 1
         \<and> waits (snd (doRequestWithContext fuel c marshal w method path body)) = k"
proof -
  obtain f where fuel: "fuel = Suc f + k"
    using assms(8) by (metis add.commute less_iff_Suc_add add_Suc_right)
  have k1: "int k \<le> sint (MaxRetries c) + 1"
    using assms(1) by simp
  have w: "(if 0 < k then wait_done w k else None) = None"
    using assms(4) by (auto simp: timer_fires_def)
  show ?thesis
    unfolding fuel call_run [OF assms(2) k1 assms(3)] retry_loop_at [OF assms(1)] w
    using assms(5-7) by (simp add: Let_def)
qed

text \<open>
  The scenario of \<^verbatim>\<open>TestNoRetryOn4xx\<close>, and a 410 that follows a retried 302.
\<close>

theorem terminal_failure_not_retried_witness:
  "int 0 \<le> sint (MaxRetries (NewClient ''http://dns'' ''key''))
   \<and> fst (doRequestWithContext 1 (NewClient ''http://dns'' ''key'') marshal_sample
            not_found ''GET'' ''/zones/1'' None) = Some (Inl (StatusFailed 404 ''not found''))
   \<and> attempts (snd (doRequestWithContext 1 (NewClient ''http://dns'' ''key'')
            marshal_sample not_found ''GET'' ''/zones/1'' None)) = 1
   \<and> retried moved_then_gone 0
   \<and> fst (doRequestWithContext 2 (NewClient ''http://dns'' ''key'') marshal_sample
            moved_then_gone ''GET'' ''/zones/1'' None) = Some (Inl (StatusFailed 410 ''gone''))
   \<and> attempts (snd (doRequestWithContext 2 (NewClient ''http://dns'' ''key'')
            marshal_sample moved_then_gone ''GET'' ''/zones/1'' None)) = 2"
  using terminal_failure_not_retried [of 0 "NewClient ''http://dns'' ''key''"
      marshal_sample None None not_found 404 "''not found''" 1 "''GET''" "''/zones/1''"]
    terminal_failure_not_retried [of 1 "NewClient ''http://dns'' ''key''"
      marshal_sample None None moved_then_gone 410 "''gone''" 2 "''GET''" "''/zones/1''"]
  by (simp add: NewClient_def serializes_def timer_fires_def retried_def not_found_def
      moved_then_gone_def)

text \<open>
  C4. For every attempt that completes at the transport level, \<^verbatim>\<open>executeRequest\<close> returns
  the whole body and the status with no error, and the iteration is decided by the status
  code alone (the context is not consulted): a status in [200,300) returns the body, a
  status in [400,500) returns the terminal error, and every other status (5xx, below 200,
  3xx, 600 and above) is recorded as the last error and the loop goes on to the next
  iteration.
\<close>

theorem classification_by_status:
  assumes "attempt <=s MaxRetries c"
    and "\<not> 0 <s attempt \<or> wait_done w n = None"
    and "transport_at w n = Response status body"
  shows "executeRequest (transport_at w n) = (body, status, None)
         \<and> retry_loop (Suc fuel) c w method path jsonData attempt n lastErr tr =
           (if 200 \<le> status \<and> status < 300
            then (Some (Inr body),
                  tr @ (if 0 <s attempt then [Backoff attempt] else [])
                     @ [Execute method path jsonData])
            else if 400 \<le> status \<and> status < 500
            then (Some (Inl (StatusFailed status body)),
                  tr @ (if 0 <s attempt then [Backoff attempt] else [])
                     @ [Execute method path jsonData])
            else retry_loop fuel c w method path jsonData (attempt + 1) (Suc n)
                   (Some (StatusFailed status body))
                   (tr @ (if 0 <s attempt then [Backoff attempt] else [])
                      @ [Execute method path jsonData]))"
  using assms by (auto simp: Let_def)

text \<open>
  A 200 returns, a 404 fails at once, a 302 is retried (and the 200 that follows returns).
\<close>

theorem classification_by_status_witness:
  "fst (retry_loop 1 (NewClient ''http://dns'' ''key'') flaky ''GET'' ''/zones/1'' None 2 2
          None []) = Some (Inr ''{}'')
   \<and> fst (retry_loop 1 (NewClient ''http://dns'' ''key'') not_found ''GET'' ''/zones/1'' None
          0 0 None []) = Some (Inl (StatusFailed 404 ''not found''))
   \<and> fst (retry_loop 2 (NewClient ''http://dns'' ''key'') redirecting ''GET'' ''/zones/1''
          None 0 0 None []) = Some (Inr ''{}'')
   \<and> attempts (snd (retry_loop 2 (NewClient ''http://dns'' ''key'') redirecting ''GET''
          ''/zones/1'' None 0 0 None [])) = 2"
  using classification_by_status [of 2 "NewClient ''http://dns'' ''key''" flaky 2 200 "''{}''"
      0 "''GET''" "''/zones/1''" None None "[]"]
    classification_by_status [of 0 "NewClient ''http://dns'' ''key''" not_found 0 404
      "''not found''" 0 "''GET''" "''/zones/1''" None None "[]"]
    classification_by_status [of 0 "NewClient ''http://dns'' ''key''" redirecting 0 302
      "''moved''" 1 "''GET''" "''/zones/1''" None None "[]"]
    classification_by_status [of 1 "NewClient ''http://dns'' ''key''" redirecting 1 200
      "''{}''" 0 "''GET''" "''/zones/1''" None "Some (StatusFailed 302 ''moved'')"
      "[Execute ''GET'' ''/zones/1'' None]"]
  by (simp add: NewClient_def flaky_def not_found_def redirecting_def word_sle_eq eval_nat_numeral
      word_sless_alt)

text \<open>
  C5, as amended. For every retry attempt index \<open>i \<ge> 1\<close> and every jitter fraction \<open>r\<close> in
  [0,1), with \<open>RetryWaitMin \<ge> 0\<close>, \<open>RetryWaitMax \<ge> 0\<close> and
  \<open>base = min (RetryWaitMin * 2^(i - 1)) RetryWaitMax \<le> 2^50\<close> nanoseconds (and \<open>i \<le> 1024\<close>
  when \<open>RetryWaitMin = 0\<close>), \<^verbatim>\<open>calculateBackoff(i)\<close> returns a whole number \<open>w\<close> of nanoseconds,
  the \<^verbatim>\<open>float64\<close> value of \<^verbatim>\<open>base - 0.25*base + r*0.25*base*2\<close> with its fraction discarded.
  It is \<open>base * (0.75 + 0.5 * r)\<close> up to rounding and truncation,
  \<open>base * (0.75 + 0.5 * r) - 1.25 < w \<le> base * (0.75 + 0.5 * r) + 0.25\<close>, and
  \<open>\<lfloor>0.75 * base\<rfloor> \<le> w \<le> 1.25 * base\<close>.
\<close>

theorem backoff_within_bounds:
  assumes "0 \<le> sint (RetryWaitMin c)"
    and "0 \<le> sint (RetryWaitMax c)"
    and "1 \<le> sint attempt"
    and "backoff_base c attempt \<le> 2 ^ 50"
    and "1 \<le> sint (RetryWaitMin c) \<or> sint attempt \<le> 1024"
    and "0 \<le> r" and "r < 1"
  shows "\<exists>w. calculateBackoff c attempt (Finite r) = Some w
           \<and> backoff_base c attempt * (3 / 4 + r / 2) - 5 / 4 < of_int w
           \<and> of_int w \<le> backoff_base c attempt * (3 / 4 + r / 2) + 1 / 4
           \<and> \<lfloor>3 / 4 * backoff_base c attempt\<rfloor> \<le> w
           \<and> of_int w \<le> 5 / 4 * backoff_base c attempt"
proof -
  define n where "n = sint attempt - 1"
  define B where "B = min (sint (RetryWaitMin c) * 2 ^ nat n) (sint (RetryWaitMax c))"
  have n: "sint (attempt - 1) = n" "0 \<le> n"
    using assms(3) by (simp_all add: n_def sint_pred)
  have n2: "1 \<le> sint (RetryWaitMin c) \<or> n \<le> 1023"
    using assms(5) by (auto simp: n_def)
  have lt: "sint (RetryWaitMin c) < 2 ^ 63" "sint (RetryWaitMax c) < 2 ^ 63"
    using sint_max [of "RetryWaitMin c"] sint_max [of "RetryWaitMax c"] by simp_all
  have base: "backoff_base c attempt = of_int B"
    using backoff_base_int [OF assms(3)] by (simp add: B_def n_def)
  have "real_of_int B \<le> real_of_int (2 ^ 50)"
    using assms(4) by (simp add: base)
  then have B50: "B \<le> 2 ^ 50" by (simp only: of_int_le_iff)
  have cap: "(if f64_gt (f64_mul (of_int64 (sint (RetryWaitMin c))) (pow2 n))
                   (of_int64 (sint (RetryWaitMax c)))
              then of_int64 (sint (RetryWaitMax c))
              else f64_mul (of_int64 (sint (RetryWaitMin c))) (pow2 n)) = Finite (of_int B)"
    unfolding B_def using assms(1) lt(1) assms(2) lt(2) n(2) n2 B50 [unfolded B_def]
    by (rule capped_backoff)
  have B: "0 \<le> B" "B \<le> 2 ^ 50"
    using assms(1,2) B50 by (simp_all add: B_def)
  have run: "calculateBackoff c attempt (Finite r) =
      to_duration
        (f64_add (f64_sub (Finite (of_int B)) (f64_mul (Finite (of_int B)) (Finite 0.25)))
           (f64_mul (f64_mul (Finite r) (f64_mul (Finite (of_int B)) (Finite 0.25)))
              (Finite 2)))"
    by (simp only: calculateBackoff_def Let_def n(1) cap)
  have "r \<le> 1" using assms(7) by simp
  from jitter_stage [OF B assms(6) this]
  show ?thesis unfolding run base by blast
qed

text \<open>
  The client of \<^verbatim>\<open>TestRetryLogic\<close> at the second retry, where the base is 20 ms: with
  \<open>r = 0\<close> the wait is 15 ms, with \<open>r = 1/2\<close> it is 20 ms or one nanosecond less.
\<close>

theorem backoff_within_bounds_witness:
  "calculateBackoff test_client 2 (Finite 0) = Some 15000000
   \<and> backoff_base test_client 2 = 20000000
   \<and> (\<exists>w. calculateBackoff test_client 2 (Finite (1 / 2)) = Some w
          \<and> 19999999 \<le> w \<and> w \<le> 20000000)"
proof -
  have b: "backoff_base test_client 2 = 20000000"
    by (simp add: backoff_base_def test_client_def NewClient_def)
  have h: "0 \<le> sint (RetryWaitMin test_client)" "0 \<le> sint (RetryWaitMax test_client)"
    "1 \<le> sint (2 :: go_int)" "backoff_base test_client 2 \<le> 2 ^ 50"
    "1 \<le> sint (RetryWaitMin test_client) \<or> sint (2 :: go_int) \<le> 1024"
    by (simp_all add: b) (simp_all add: test_client_def NewClient_def)
  obtain w where w: "calculateBackoff test_client 2 (Finite 0) = Some w"
    "\<lfloor>3 / 4 * backoff_base test_client 2\<rfloor> \<le> w"
    "of_int w \<le> backoff_base test_client 2 * (3 / 4 + 0 / 2) + 1 / 4"
    using backoff_within_bounds [OF h, of 0] by auto
  have "15000000 \<le> w" using w(2) by (simp add: b)
  moreover have "real_of_int w < real_of_int 15000001" using w(3) by (simp add: b)
  then have "w < 15000001" by (simp only: of_int_less_iff)
  ultimately have w0: "w = 15000000" by simp
  obtain v where v: "calculateBackoff test_client 2 (Finite (1 / 2)) = Some v"
    "backoff_base test_client 2 * (3 / 4 + (1 / 2) / 2) - 5 / 4 < of_int v"
    "of_int v \<le> backoff_base test_client 2 * (3 / 4 + (1 / 2) / 2) + 1 / 4"
    using backoff_within_bounds [OF h, of "1 / 2"] by auto
  have "real_of_int 19999998 < real_of_int v" using v(2) by (simp add: b)
  then have "19999998 < v" by (simp only: of_int_less_iff)
  moreover have "real_of_int v < real_of_int 20000001" using v(3) by (simp add: b)
  then have "v < 20000001" by (simp only: of_int_less_iff)
  ultimately have "19999999 \<le> v \<and> v \<le> 20000000" by simp
  then show ?thesis using w(1) w0 b v(1) by auto
qed

text \<open>
  C5 as stated fails where \<open>base * (0.75 + 0.5 * r)\<close> is not a whole number: with
  \<open>RetryWaitMin\<close> of 3 ns, \<open>i = 1\<close> and \<open>r = 0\<close> every \<^verbatim>\<open>float64\<close> operation is exact, the
  value is 2.25 and the wait returned is 2 ns, which is neither 2.25 nor within
  [2.25, 3.75].
\<close>

theorem backoff_truncated_below_bound:
  "calculateBackoff three_ns_client 1 (Finite 0) = Some 2
   \<and> backoff_base three_ns_client 1 = 3
   \<and> real_of_int 2 \<noteq> backoff_base three_ns_client 1 * (3 / 4 + 0 / 2)
   \<and> real_of_int 2 < 3 / 4 * backoff_base three_ns_client 1"
proof -
  have b: "backoff_base three_ns_client 1 = 3"
    by (simp add: backoff_base_def three_ns_client_def NewClient_def)
  have e1: "of_int64 3 = Finite 3" "of_int64 30000000000 = Finite 30000000000"
    using of_int64_exact [of 3] of_int64_exact [of 30000000000] by simp_all
  have e2: "pow2 0 = Finite 1"
    using pow2_small [of 0] by simp
  have e3: "round64 3 = Finite 3"
    using of_int64_exact [of 3] by (simp add: of_int64_def)
  have e4: "round64 (3 / 4) = Finite (3 / 4)" "round64 (9 / 4) = Finite (9 / 4)"
    "round64 0 = Finite 0"
    using round64_quarter [of 3] round64_quarter [of 9] round64_quarter [of 0] by simp_all
  have "calculateBackoff three_ns_client 1 (Finite 0) = Some 2"
    by (simp add: calculateBackoff_def three_ns_client_def NewClient_def Let_def f64_sub_def
        e1 e2 e3 e4)
  then show ?thesis by (simp add: b)
qed

text \<open>
  C6. For every call, the first \<open>k\<close> attempts being those the loop retries: if the context is
  done
  while the loop waits out the backoff before attempt \<open>k + 1\<close>, or attempt \<open>k + 1\<close> fails at
  the transport level and the context is done, the call returns the error of the context,
  neither the transient failure nor a retry-exhausted error. In the first case \<open>k\<close>
  attempts were made, in the second \<open>k + 1\<close>; in both \<open>k\<close> backoffs were begun, and
  nothing follows.
\<close>

theorem cancellation_short_circuits:
  assumes "int k \<le> sint (MaxRetries c)"
    and "serializes marshal body jsonData"
    and "\<forall>j<k. timer_fires w j \<and> retried w j"
    and "(0 < k \<and> wait_done w k = Some e)
         \<or> (timer_fires w k \<and> transport_failed (transport_at w k) \<and> ctx_err w k = Some e)"
    and "k < fuel"
  shows "fst (doRequestWithContext fuel c marshal w method path body) =
           Some (Inl (ContextError e))
         \<and> attempts (snd (doRequestWithContext fuel c marshal w method path body)) =
           (if 0 < k \<and> wait_done w k = Some e then k else k + 1)
         \<and> waits (snd (doRequestWithContext fuel c marshal w method path body)) = k"
proof -
  obtain f where fuel: "fuel = Suc f + k"
    using assms(5) by (metis add.commute less_iff_Suc_add add_Suc_right)
  have k1: "int k \<le> sint (MaxRetries c) + 1"
    using assms(1) by simp
  note run = call_run [OF assms(2) k1 assms(3)] retry_loop_at [OF assms(1)]
  from assms(4) show ?thesis
  proof
    assume "0 < k \<and> wait_done w k = Some e"
    then show ?thesis
      unfolding fuel run by simp
  next
    assume a: "timer_fires w k \<and> transport_failed (transport_at w k) \<and> ctx_err w k = Some e"
    then obtain rb sc err where ex: "executeRequest (transport_at w k) = (rb, sc, Some err)"
      using transport_failed_error by blast
    have w: "(if 0 < k then wait_done w k else None) = None"
      using a by (auto simp: timer_fires_def)
    have n: "\<not> (0 < k \<and> wait_done w k = Some e)"
      using a by (auto simp: timer_fires_def)
    show ?thesis
      unfolding fuel run w using a ex n by (simp add: Let_def)
  qed
qed

text \<open>
  A cancellation during the first backoff, and a deadline that passes during the first
  attempt.
\<close>

theorem cancellation_short_circuits_witness:
  "fst (doRequestWithContext 5 (NewClient ''http://dns'' ''key'') marshal_sample
          canceled_in_backoff ''GET'' ''/zones/1'' None) = Some (Inl (ContextError Canceled))
   \<and> attempts (snd (doRequestWithContext 5 (NewClient ''http://dns'' ''key'')
          marshal_sample canceled_in_backoff ''GET'' ''/zones/1'' None)) = 1
   \<and> fst (doRequestWithContext 5 (NewClient ''http://dns'' ''key'') marshal_sample
          deadline_passed ''GET'' ''/zones/1'' None) =
       Some (Inl (ContextError DeadlineExceeded))
   \<and> attempts (snd (doRequestWithContext 5 (NewClient ''http://dns'' ''key'')
          marshal_sample deadline_passed ''GET'' ''/zones/1'' None)) = 1
   \<and> waits (snd (doRequestWithContext 5 (NewClient ''http://dns'' ''key'')
          marshal_sample deadline_passed ''GET'' ''/zones/1'' None)) = 0"
  using cancellation_short_circuits [of 1 "NewClient ''http://dns'' ''key''"
      marshal_sample None None canceled_in_backoff Canceled 5 "''GET''" "''/zones/1''"]
    cancellation_short_circuits [of 0 "NewClient ''http://dns'' ''key''"
      marshal_sample None None deadline_passed DeadlineExceeded 5 "''GET''"
      "''/zones/1''"]
  by (simp add: NewClient_def serializes_def timer_fires_def retried_def
      canceled_in_backoff_def deadline_passed_def)

text \<open>
  C7. For every call with a non-nil body that serializes, whatever the fuel: the body is
  serialized exactly once, first of all, and every attempt is given the same serialized
  bytes. For a body that does not serialize the call returns the marshal error at once and
  makes no attempt.
\<close>

theorem body_serialized_once:
  assumes "marshal b = Inr jsonData" and "marshal b' = Inl cause"
  shows "marshals (snd (doRequestWithContext fuel c marshal w method path (Some b))) = 1
         \<and> hd (snd (doRequestWithContext fuel c marshal w method path (Some b))) = Marshal
         \<and> (\<forall>d \<in> set (bodies_sent
                 (snd (doRequestWithContext fuel c marshal w method path (Some b)))).
              d = Some jsonData)
         \<and> doRequestWithContext fuel c marshal w method path (Some b') =
             (Some (Inl (MarshalFailed cause)), [Marshal])
         \<and> attempts (snd (doRequestWithContext fuel c marshal w method path (Some b'))) = 0"
proof -
  obtain t where t: "snd (retry_loop fuel c w method path (Some jsonData) 0 0 None [Marshal])
      = [Marshal] @ t" "marshals t = 0" "set (bodies_sent t) \<subseteq> {Some jsonData}"
    using retry_loop_trace [of fuel c w _ _ "Some jsonData" 0 0 None "[Marshal]"]
    by blast
  show ?thesis
    using assms t by (auto simp: doRequestWithContext_def)
qed

theorem body_serialized_once_witness:
  "marshal_sample True = Inr ''{}''
   \<and> marshal_sample False = Inl ''json: unsupported value''
   \<and> marshals (snd (doRequestWithContext 3 (NewClient ''http://dns'' ''key'') marshal_sample
         flaky ''POST'' ''/zones'' (Some True))) = 1
   \<and> bodies_sent (snd (doRequestWithContext 3 (NewClient ''http://dns'' ''key'') marshal_sample
         flaky ''POST'' ''/zones'' (Some True))) = [Some ''{}'', Some ''{}'', Some ''{}'']
   \<and> doRequestWithContext 3 (NewClient ''http://dns'' ''key'') marshal_sample flaky
         ''POST'' ''/zones'' (Some False) =
       (Some (Inl (MarshalFailed ''json: unsupported value'')), [Marshal])"
  using body_serialized_once [of marshal_sample True "''{}''" False
      "''json: unsupported value''" 3 "NewClient ''http://dns'' ''key''" flaky "''POST''"
      "''/zones''"]
  by (simp add: doRequestWithContext_def marshal_sample_def NewClient_def flaky_def
      eval_nat_numeral word_sle_eq word_sless_alt)

text \<open>
  C9. For every attempt where the headers arrive (with any status, in particular 2xx) but
  reading the body fails, the context not being done: the attempt is not a success, the
  read error is recorded as the last error and the loop goes on to the next iteration.
\<close>

theorem partial_read_is_retried:
  assumes "attempt <=s MaxRetries c"
    and "\<not> 0 <s attempt \<or> wait_done w n = None"
    and "transport_at w n = ReadError status partial cause"
    and "ctx_err w n = None"
  shows "retry_loop (Suc fuel) c w method path jsonData attempt n lastErr tr =
         retry_loop fuel c w method path jsonData (attempt + 1) (Suc n)
           (Some (ReadBodyFailed cause))
           (tr @ (if 0 <s attempt then [Backoff attempt] else [])
              @ [Execute method path jsonData])"
  using assms by (auto simp: Let_def)

text \<open>
  A first response with status 200 that breaks off: with fuel for one iteration the call
  has not returned; with fuel for two, the retry returns the second response.
\<close>

theorem partial_read_is_retried_witness:
  "retry_loop 1 (NewClient ''http://dns'' ''key'') truncated ''GET'' ''/zones/1'' None 0 0
     None [] = (None, [Execute ''GET'' ''/zones/1'' None])
   \<and> retry_loop 2 (NewClient ''http://dns'' ''key'') truncated ''GET'' ''/zones/1'' None 0 0
     None [] =
     (Some (Inr ''{}''),
      [Execute ''GET'' ''/zones/1'' None, Backoff 1, Execute ''GET'' ''/zones/1'' None])"
  using partial_read_is_retried [of 0 "NewClient ''http://dns'' ''key''" truncated 0 200
      "''{''" "''unexpected EOF''" 0 "''GET''" "''/zones/1''" None None "[]"]
    partial_read_is_retried [of 0 "NewClient ''http://dns'' ''key''" truncated 0 200
      "''{''" "''unexpected EOF''" 1 "''GET''" "''/zones/1''" None None "[]"]
  by (simp add: NewClient_def truncated_def word_sle_eq word_sless_alt eval_nat_numeral)

text \<open>
  C10, as amended. For every call where \<^verbatim>\<open>MaxRetries\<close> is negative and the body is nil or
  serializes, the call makes no attempt and begins no backoff, and returns the
  retry-exhausted error whose wrapped cause is nil.
\<close>

theorem negative_budget:
  assumes "MaxRetries c <s 0"
    and "serializes marshal body jsonData"
    and "0 < fuel"
  shows "fst (doRequestWithContext fuel c marshal w method path body) =
           Some (Inl (RetriesFailed (MaxRetries c) None))
         \<and> attempts (snd (doRequestWithContext fuel c marshal w method path body)) = 0
         \<and> waits (snd (doRequestWithContext fuel c marshal w method path body)) = 0"
proof -
  obtain f where fuel: "fuel = Suc f"
    using assms(3) by (cases fuel) simp_all
  have "\<not> 0 <=s MaxRetries c"
    using assms(1) by (simp add: word_sle_eq word_sless_alt)
  then show ?thesis
    unfolding fuel doRequestWithContext_serialized [OF assms(2)] by simp
qed

theorem negative_budget_witness:
  "MaxRetries no_retries_client <s 0
   \<and> serializes marshal_sample (Some True) (Some ''{}'')
   \<and> doRequestWithContext 1 no_retries_client marshal_sample unavailable
         ''POST'' ''/zones'' (Some True) =
       (Some (Inl (RetriesFailed (- 1) None)), [Marshal])"
  using negative_budget [of no_retries_client marshal_sample "Some True" "Some ''{}''" 1
      unavailable "''POST''" "''/zones''"]
  by (simp add: no_retries_client_def serializes_def marshal_sample_def
      doRequestWithContext_def)

text \<open>
  C10 as stated fails for a body that \<^verbatim>\<open>json.Marshal\<close> rejects: the call returns the
  marshal error before the loop, not a retry-exhausted error.
\<close>

theorem negative_budget_marshal_error:
  "MaxRetries no_retries_client <s 0
   \<and> doRequestWithContext 1 no_retries_client marshal_sample unavailable
         ''POST'' ''/zones'' (Some False) =
       (Some (Inl (MarshalFailed ''json: unsupported value'')), [Marshal])
   \<and> fst (doRequestWithContext 1 no_retries_client marshal_sample unavailable
         ''POST'' ''/zones'' (Some False)) \<noteq> Some (Inl (RetriesFailed (- 1) None))"
  by (simp add: no_retries_client_def marshal_sample_def doRequestWithContext_def)

section \<open>Properties of the record operations\<close>

text \<open>
  C8, as amended. For every record returned by \<^verbatim>\<open>CreateRecord\<close>, \<^verbatim>\<open>GetRecord\<close> or
  \<^verbatim>\<open>UpdateRecord\<close> the outer decode succeeded, and then: \<^verbatim>\<open>Data\<close> is what the second-pass
  decode of \<^verbatim>\<open>data\<close> leaves, unless that string is empty (then \<^verbatim>\<open>Data\<close> is nil);
  \<^verbatim>\<open>ConditionalData\<close> is what the second-pass decode of \<^verbatim>\<open>conditional_data\<close> leaves, unless
  that string is empty or the sentinel \<^verbatim>\<open>{}\<close> (then the decode is skipped and
  \<^verbatim>\<open>ConditionalData\<close> is nil). The sentinel is honoured for \<^verbatim>\<open>conditional_data\<close> only.
\<close>

theorem nested_fields_second_pass:
  assumes "CreateRecord fuel c marshal unmarshal_record unmarshal_object w zoneID req
             = Some (Inr r)
           \<or> GetRecord fuel c unmarshal_record unmarshal_object w zoneID recordID
             = Some (Inr r)
           \<or> UpdateRecord fuel c marshal unmarshal_record unmarshal_object w zoneID recordID req
             = Some (Inr r)"
  shows "(\<exists>respBody. unmarshal_record respBody = Inr (RecordFields.truncate r))
         \<and> (if DataRaw r \<noteq> [] then unmarshal_object (DataRaw r) else Inr None) = Inr (Data r)
         \<and> (if ConditionalDataRaw r \<noteq> [] \<and> ConditionalDataRaw r \<noteq> emptyJSON
             then unmarshal_object (ConditionalDataRaw r) else Inr None)
           = Inr (ConditionalData r)"
proof -
  from assms obtain respBody
    where "decode_record unmarshal_record unmarshal_object respBody = Inr r"
    by (auto simp: CreateRecord_def GetRecord_def UpdateRecord_def
             split: option.splits sum.splits)
  from decode_record_Inr [OF this] show ?thesis by blast
qed

theorem nested_fields_second_pass_witness:
  "CreateRecord 1 (NewClient ''http://dns'' ''key'') marshal_sample sample_unmarshal_record
     sample_unmarshal_object serving ''1'' True = Some (Inr sample_record)
   \<and> sample_unmarshal_record ''record 7'' = Inr (RecordFields.truncate sample_record)
   \<and> sample_unmarshal_object (DataRaw sample_record) = Inr (Data sample_record)
   \<and> ConditionalDataRaw sample_record = emptyJSON
   \<and> ConditionalData sample_record = None"
  using nested_fields_second_pass [of 1 "NewClient ''http://dns'' ''key''" marshal_sample
      sample_unmarshal_record sample_unmarshal_object serving "''1''" True sample_record
      "''7''"]
  by (simp add: CreateRecord_def doRequest_def doRequestWithContext_def background_def
      marshal_sample_def NewClient_def serving_def decode_record_def
      sample_unmarshal_record_def sample_unmarshal_object_def sample_fields_def
      sample_record_def emptyJSON_def Let_def RecordFields.defs Record.defs word_sle_eq
      word_sless_alt)

text \<open>
  C8 as stated fails for \<^verbatim>\<open>data\<close>: when it is the string \<^verbatim>\<open>{}\<close> the second pass runs
  and \<^verbatim>\<open>Data\<close> is an empty map, not nil.
\<close>

theorem empty_object_data_is_decoded:
  "GetRecord 1 (NewClient ''http://dns'' ''key'') sample_unmarshal_record
     sample_unmarshal_object serving ''1'' ''7'' = Some (Inr sample_record)
   \<and> DataRaw sample_record = emptyJSON
   \<and> Data sample_record = Some Map.empty
   \<and> Data sample_record \<noteq> None"
  by (simp add: GetRecord_def doRequest_def doRequestWithContext_def background_def
      NewClient_def serving_def decode_record_def sample_unmarshal_record_def
      sample_unmarshal_object_def sample_fields_def sample_record_def emptyJSON_def Let_def
      RecordFields.defs Record.defs word_sle_eq word_sless_alt)

end
